theory Spec2Isabelle
  imports Complex_Main "HOL-Library.AList" "HOL-Library.List_Lexorder" "HOL-Library.Char_ord"
begin

section \<open>The platform: exceptions, plain objects, dates\<close>

text \<open>
  The weather application is JavaScript. Its functions are embedded as HOL functions;
  an exception that a function would throw is the \<open>Inl\<close> branch of its result.
\<close>

datatype exn = RangeError | TypeError | SyntaxError | QuotaExceededError | SecurityError

subsection \<open>Property lookup on a plain object\<close>

text \<open>
  An object literal \<open>{...}\<close> has its own properties, kept here as an association list
  in insertion order, and inherits the members of \<open>Object.prototype\<close>. Reading
  \<open>obj[k]\<close> gives the own property when there is one, the inherited member when \<open>k\<close>
  names one, and \<open>undefined\<close> otherwise. Every inherited member is a function (or, for
  \<open>__proto__\<close>, the prototype object), hence truthy.
\<close>

datatype 'a property = Undefined | Own 'a | Inherited string

definition Object_prototype_keys :: "string list" where
  "Object_prototype_keys =
     [''constructor'', ''hasOwnProperty'', ''isPrototypeOf'', ''propertyIsEnumerable'',
      ''toLocaleString'', ''toString'', ''valueOf'', ''__proto__'',
      ''__defineGetter__'', ''__defineSetter__'', ''__lookupGetter__'', ''__lookupSetter__'']"

definition get_prop :: "(string \<times> 'a) list \<Rightarrow> string \<Rightarrow> 'a property" where
  "get_prop obj k =
     (case map_of obj k of
        Some v \<Rightarrow> Own v
      | None \<Rightarrow> if k \<in> set Object_prototype_keys then Inherited k else Undefined)"

text \<open>
  \<open>obj[k] = v\<close> overwrites an own property in place and appends a new one at the end;
  \<open>Object.values\<close> lists the values in insertion order (the keys used below are never
  array indices).
\<close>

definition set_prop :: "string \<Rightarrow> 'a \<Rightarrow> (string \<times> 'a) list \<Rightarrow> (string \<times> 'a) list" where
  "set_prop k v obj = AList.update k v obj"

definition Object_values :: "(string \<times> 'a) list \<Rightarrow> 'a list" where
  "Object_values obj = map snd obj"

subsection \<open>Dates\<close>

text \<open>
  A time value is a number of milliseconds since the epoch; \<open>new Date(t)\<close> is valid
  when \<open>|t| \<le> 8.64e15\<close>. \<open>toISOString\<close> throws a \<open>RangeError\<close> on an invalid date
  and otherwise prints the UTC calendar date and time; only the part before \<open>T\<close> is
  used by the application. \<open>getHours\<close> reads the hour in local time, which depends on
  the environment's time zone: the local offset (in milliseconds, at a given time value)
  is a parameter \<open>tza\<close>.
\<close>

definition msPerDay :: int where
  "msPerDay = 86400000"

definition msPerHour :: int where
  "msPerHour = 3600000"

definition time_valid :: "int \<Rightarrow> bool" where
  "time_valid t = (\<bar>t\<bar> \<le> 8640000000000000)"

definition Day :: "int \<Rightarrow> int" where
  "Day t = t div msPerDay"

definition civil_from_days :: "int \<Rightarrow> int \<times> int \<times> int" where
  "civil_from_days n =
     (let z = n + 719468;
          era = z div 146097;
          doe = z mod 146097;
          yoe = (doe - doe div 1460 + doe div 36524 - doe div 146096) div 365;
          doy = doe - (365 * yoe + yoe div 4 - yoe div 100);
          mp = (5 * doy + 2) div 153;
          d = doy - (153 * mp + 2) div 5 + 1;
          m = (if mp < 10 then mp + 3 else mp - 9);
          y = yoe + era * 400 + (if m \<le> 2 then 1 else 0)
      in (y, m, d))"

definition digit :: "int \<Rightarrow> char" where
  "digit n = ''0123456789'' ! nat (n mod 10)"

definition pad2 :: "int \<Rightarrow> string" where
  "pad2 n = [digit (n div 10), digit n]"

definition pad4 :: "int \<Rightarrow> string" where
  "pad4 n = [digit (n div 1000), digit (n div 100), digit (n div 10), digit n]"

definition pad6 :: "int \<Rightarrow> string" where
  "pad6 n = [digit (n div 100000), digit (n div 10000), digit (n div 1000),
             digit (n div 100), digit (n div 10), digit n]"

definition year_string :: "int \<Rightarrow> string" where
  "year_string y =
     (if 0 \<le> y \<and> y \<le> 9999 then pad4 y
      else (if y < 0 then CHR ''-'' else CHR ''+'') # pad6 \<bar>y\<bar>)"

definition iso_date :: "int \<Rightarrow> string" where
  "iso_date t =
     (case civil_from_days (Day t) of
        (y, m, d) \<Rightarrow> year_string y @ ''-'' @ pad2 m @ ''-'' @ pad2 d)"

definition toISOString_date :: "int \<Rightarrow> exn + string" where
  "toISOString_date t = (if time_valid t then Inr (iso_date t) else Inl RangeError)"

definition getHours :: "(int \<Rightarrow> int) \<Rightarrow> int \<Rightarrow> int" where
  "getHours tza t = ((t + tza t) div msPerHour) mod 24"

definition utc_zone :: "int \<Rightarrow> int" where
  "utc_zone t = 0"

text \<open>
  Numbers are modelled exactly: integers for timestamps, reals for measurements.
  \<open>Math.round\<close> rounds to the nearest integer, halves upwards.
\<close>

definition Math_round :: "real \<Rightarrow> int" where
  "Math_round x = \<lfloor>x + 1 / 2\<rfloor>"

subsection \<open>Numbers\<close>

text \<open>
  A JavaScript number is an IEEE 754 double: a finite value (a rational; the two zeros are
  not told apart), an infinity or \<open>NaN\<close>. The result of an arithmetic operation is the
  exact result rounded to the nearest double, ties to the even significand, and to an
  infinity from \<open>2^1024\<close> on. \<open>ilog2\<close> and \<open>clog2\<close> are the binary logarithm of a positive
  integer rounded down and up; \<open>round_double\<close> scales the magnitude by the power of two
  that leaves 53 significant bits (or by \<open>2^-1074\<close> for subnormal values) and rounds it to
  an integer.
\<close>

datatype number = Finite rat | PlusInfinity | MinusInfinity | NaN

function ilog2 :: "int \<Rightarrow> int" where
  "ilog2 n = (if n < 2 then 0 else 1 + ilog2 (n div 2))"
  by pat_completeness auto
termination
  by (relation "measure nat") auto

declare ilog2.simps [simp del]

definition clog2 :: "int \<Rightarrow> int" where
  "clog2 n = (if n \<le> 1 then 0 else 1 + ilog2 (n - 1))"

definition floor_log2 :: "rat \<Rightarrow> int" where
  "floor_log2 x = (if 1 \<le> x then ilog2 \<lfloor>x\<rfloor> else - clog2 \<lceil>1 / x\<rceil>)"

definition pow2 :: "int \<Rightarrow> rat" where
  "pow2 p = (if 0 \<le> p then 2 ^ nat p else 1 / 2 ^ nat (- p))"

definition round_half_even :: "rat \<Rightarrow> int" where
  "round_half_even q =
     (let f = \<lfloor>q\<rfloor>; r = q - of_int f
      in if r < 1 / 2 then f else if 1 / 2 < r then f + 1 else if even f then f else f + 1)"

text \<open>The magnitude \<open>2^1024\<close> from which a rounded value overflows to an infinity.\<close>

definition overflow_threshold :: rat where
  "overflow_threshold = (2 ^ 32) ^ 32"

definition round_double :: "rat \<Rightarrow> number" where
  "round_double x =
     (if x = 0 then Finite 0
      else let p = max (floor_log2 \<bar>x\<bar> - 52) (- 1074);
               m = of_int (round_half_even (\<bar>x\<bar> / pow2 p)) * pow2 p
           in if overflow_threshold \<le> m then (if 0 < x then PlusInfinity else MinusInfinity)
              else Finite (if 0 < x then m else - m))"

text \<open>Subtraction, multiplication and \<open>>\<close> on numbers.\<close>

fun num_sub :: "number \<Rightarrow> number \<Rightarrow> number" where
  "num_sub NaN b = NaN"
| "num_sub a NaN = NaN"
| "num_sub (Finite a) (Finite b) = round_double (a - b)"
| "num_sub (Finite a) PlusInfinity = MinusInfinity"
| "num_sub (Finite a) MinusInfinity = PlusInfinity"
| "num_sub PlusInfinity PlusInfinity = NaN"
| "num_sub MinusInfinity MinusInfinity = NaN"
| "num_sub PlusInfinity b = PlusInfinity"
| "num_sub MinusInfinity b = MinusInfinity"

fun num_mul :: "number \<Rightarrow> number \<Rightarrow> number" where
  "num_mul NaN b = NaN"
| "num_mul a NaN = NaN"
| "num_mul (Finite a) (Finite b) = round_double (a * b)"
| "num_mul (Finite a) PlusInfinity =
     (if a = 0 then NaN else if 0 < a then PlusInfinity else MinusInfinity)"
| "num_mul (Finite a) MinusInfinity =
     (if a = 0 then NaN else if 0 < a then MinusInfinity else PlusInfinity)"
| "num_mul PlusInfinity (Finite b) =
     (if b = 0 then NaN else if 0 < b then PlusInfinity else MinusInfinity)"
| "num_mul MinusInfinity (Finite b) =
     (if b = 0 then NaN else if 0 < b then MinusInfinity else PlusInfinity)"
| "num_mul PlusInfinity PlusInfinity = PlusInfinity"
| "num_mul PlusInfinity MinusInfinity = MinusInfinity"
| "num_mul MinusInfinity PlusInfinity = MinusInfinity"
| "num_mul MinusInfinity MinusInfinity = PlusInfinity"

fun num_gt :: "number \<Rightarrow> number \<Rightarrow> bool" where
  "num_gt NaN b = False"
| "num_gt a NaN = False"
| "num_gt (Finite a) (Finite b) = (b < a)"
| "num_gt a PlusInfinity = False"
| "num_gt MinusInfinity b = False"
| "num_gt PlusInfinity b = True"
| "num_gt (Finite a) MinusInfinity = True"

section \<open>Weather data formatting (js/api.js)\<close>

subsection \<open>Icon code mapping\<close>

text \<open>
  A symbol is a string of Unicode code points. \<open>iconMap\<close> is the object literal of
  \<open>getWeatherIcon\<close>; the function returns \<open>iconMap[iconCode] || fallback\<close>.
\<close>

type_synonym symbol = "nat list"

datatype icon_value = Symbol symbol | PrototypeMember string

definition iconMap :: "(string \<times> symbol) list" where
  "iconMap =
     [(''01d'', [0x2600, 0xFE0F]),
      (''01n'', [0x1F319]),
      (''02d'', [0x26C5]),
      (''02n'', [0x2601, 0xFE0F]),
      (''03d'', [0x2601, 0xFE0F]),
      (''03n'', [0x2601, 0xFE0F]),
      (''04d'', [0x2601, 0xFE0F]),
      (''04n'', [0x2601, 0xFE0F]),
      (''09d'', [0x1F327, 0xFE0F]),
      (''09n'', [0x1F327, 0xFE0F]),
      (''10d'', [0x1F326, 0xFE0F]),
      (''10n'', [0x1F327, 0xFE0F]),
      (''11d'', [0x26C8, 0xFE0F]),
      (''11n'', [0x26C8, 0xFE0F]),
      (''13d'', [0x2744, 0xFE0F]),
      (''13n'', [0x2744, 0xFE0F]),
      (''50d'', [0x1F32B, 0xFE0F]),
      (''50n'', [0x1F32B, 0xFE0F])]"

definition fallback_symbol :: symbol where
  "fallback_symbol = [0x1F321, 0xFE0F]"

definition getWeatherIcon :: "string \<Rightarrow> icon_value" where
  "getWeatherIcon iconCode =
     (case get_prop iconMap iconCode of
        Own s \<Rightarrow> if s = [] then Symbol fallback_symbol else Symbol s
      | Inherited k \<Rightarrow> PrototypeMember k
      | Undefined \<Rightarrow> Symbol fallback_symbol)"

subsection \<open>Forecast aggregation\<close>

text \<open>
  One entry of \<open>data.list\<close> as the provider sends it, and one entry of the result.
\<close>

record weather_cond =
  w_description :: string
  w_icon :: string
  w_main :: string

record forecast_item =
  dt :: int
  main_temp :: real
  main_temp_min :: real
  main_temp_max :: real
  main_humidity :: int
  weather :: "weather_cond list"
  wind_speed :: real

record daily_forecast =
  date :: string
  timestamp :: int
  temperature :: int
  tempMin :: int
  tempMax :: int
  humidity :: int
  description :: string
  icon :: string
  main :: string
  windSpeed :: int

text \<open>
  The object literal stored in \<open>dailyForecasts[dateKey]\<close>. Reading
  \<open>item.weather[0].description\<close> throws a \<open>TypeError\<close> when the list is empty.
\<close>

definition dailyEntry :: "string \<Rightarrow> forecast_item \<Rightarrow> exn + daily_forecast" where
  "dailyEntry dateKey item =
     (case weather item of
        [] \<Rightarrow> Inl TypeError
      | w # _ \<Rightarrow>
          Inr \<lparr> date = dateKey,
                timestamp = dt item * 1000,
                temperature = Math_round (main_temp item),
                tempMin = Math_round (main_temp_min item),
                tempMax = Math_round (main_temp_max item),
                humidity = main_humidity item,
                description = w_description w,
                icon = w_icon w,
                main = w_main w,
                windSpeed = Math_round (wind_speed item * (36 / 10)) \<rparr>)"

definition noon_distance :: "(int \<Rightarrow> int) \<Rightarrow> int \<Rightarrow> int" where
  "noon_distance tza t = \<bar>getHours tza t - 12\<bar>"

text \<open>
  The test of the \<open>if\<close> in the loop body: no truthy value is recorded under the key, or
  the candidate's hour is strictly closer to 12 than the recorded entry's hour. An
  inherited member is truthy and has no \<open>timestamp\<close>, so the comparison is against
  \<open>NaN\<close> and fails.
\<close>

definition replaces :: "(int \<Rightarrow> int) \<Rightarrow> (string \<times> daily_forecast) list \<Rightarrow> string \<Rightarrow> int \<Rightarrow> bool" where
  "replaces tza dailyForecasts dateKey hour =
     (case get_prop dailyForecasts dateKey of
        Undefined \<Rightarrow> True
      | Own e \<Rightarrow> \<bar>hour - 12\<bar> < \<bar>getHours tza (timestamp e) - 12\<bar>
      | Inherited k \<Rightarrow> False)"

definition forecast_step ::
  "(int \<Rightarrow> int) \<Rightarrow> (string \<times> daily_forecast) list \<Rightarrow> forecast_item
     \<Rightarrow> exn + (string \<times> daily_forecast) list" where
  "forecast_step tza dailyForecasts item =
     (case toISOString_date (dt item * 1000) of
        Inl e \<Rightarrow> Inl e
      | Inr dateKey \<Rightarrow>
          let hour = getHours tza (dt item * 1000) in
          if replaces tza dailyForecasts dateKey hour
          then (case dailyEntry dateKey item of
                  Inl e \<Rightarrow> Inl e
                | Inr v \<Rightarrow> Inr (set_prop dateKey v dailyForecasts))
          else Inr dailyForecasts)"

fun forEach_item ::
  "(int \<Rightarrow> int) \<Rightarrow> (string \<times> daily_forecast) list \<Rightarrow> forecast_item list
     \<Rightarrow> exn + (string \<times> daily_forecast) list" where
  "forEach_item tza dailyForecasts [] = Inr dailyForecasts"
| "forEach_item tza dailyForecasts (item # items) =
     (case forecast_step tza dailyForecasts item of
        Inl e \<Rightarrow> Inl e
      | Inr dailyForecasts' \<Rightarrow> forEach_item tza dailyForecasts' items)"

definition formatForecast :: "(int \<Rightarrow> int) \<Rightarrow> forecast_item list \<Rightarrow> exn + daily_forecast list" where
  "formatForecast tza data_list =
     (case forEach_item tza [] data_list of
        Inl e \<Rightarrow> Inl e
      | Inr dailyForecasts \<Rightarrow> Inr (take 5 (Object_values dailyForecasts)))"

text \<open>Names used to state the properties of the aggregation.\<close>

definition dateKey_of :: "forecast_item \<Rightarrow> string" where
  "dateKey_of item = iso_date (dt item * 1000)"

definition hour_distance :: "(int \<Rightarrow> int) \<Rightarrow> forecast_item \<Rightarrow> int" where
  "hour_distance tza item = noon_distance tza (dt item * 1000)"

definition first_seen :: "'a list \<Rightarrow> 'a list" where
  "first_seen ks = rev (remdups (rev ks))"

definition sample_at :: "int \<Rightarrow> forecast_item" where
  "sample_at secs =
     \<lparr> dt = secs, main_temp = 20, main_temp_min = 18, main_temp_max = 22,
       main_humidity = 50,
       weather = [\<lparr> w_description = ''clear sky'', w_icon = ''01d'', w_main = ''Clear'' \<rparr>],
       wind_speed = 10 \<rparr>"

definition entry_at :: "string \<Rightarrow> int \<Rightarrow> daily_forecast" where
  "entry_at k secs =
     \<lparr> date = k, timestamp = secs * 1000, temperature = 20, tempMin = 18, tempMax = 22,
       humidity = 50, description = ''clear sky'', icon = ''01d'', main = ''Clear'',
       windSpeed = 36 \<rparr>"

text \<open>
  \<open>selected tza xs k e\<close>: the entry \<open>e\<close> was built from a sample of \<open>xs\<close> with date key
  \<open>k\<close>, every earlier sample of that day is strictly farther from noon, and no later
  sample of that day is closer. \<open>fold_inv\<close> is the loop invariant of \<open>forEach\<close>.
\<close>

definition selected ::
  "(int \<Rightarrow> int) \<Rightarrow> forecast_item list \<Rightarrow> string \<Rightarrow> daily_forecast \<Rightarrow> bool" where
  "selected tza xs k e =
     (\<exists>pre s post. xs = pre @ s # post \<and> dateKey_of s = k \<and> dailyEntry k s = Inr e \<and>
        (\<forall>y\<in>set pre. dateKey_of y = k \<longrightarrow> hour_distance tza s < hour_distance tza y) \<and>
        (\<forall>y\<in>set post. dateKey_of y = k \<longrightarrow> hour_distance tza s \<le> hour_distance tza y))"

definition fold_inv ::
  "(int \<Rightarrow> int) \<Rightarrow> forecast_item list \<Rightarrow> (string \<times> daily_forecast) list \<Rightarrow> bool" where
  "fold_inv tza xs m =
     (map fst m = first_seen (map dateKey_of xs) \<and>
      (\<forall>k e. map_of m k = Some e \<longrightarrow> selected tza xs k e))"

section \<open>Preference store (js/storage.js)\<close>

subsection \<open>Values, JSON and local storage\<close>

text \<open>
  The values the store handles: what \<open>JSON.parse\<close> can return (numbers are modelled
  as integers), and \<open>BigInt\<close> values, which \<open>JSON.stringify\<close> refuses with a
  \<open>TypeError\<close>. An object is the list of its own properties.
\<close>

datatype jsval =
    JNull
  | JBool bool
  | JNum int
  | JStr string
  | JBigInt int
  | JArr "jsval list"
  | JObj "(string \<times> jsval) list"

text \<open>
  A string held by local storage is either the JSON text of a value (\<open>Json v\<close>, which
  parses back to \<open>v\<close>), the empty string, or some other string that is not JSON.
\<close>

datatype storage_text = Json jsval | Empty | Malformed

fun has_bigint :: "jsval \<Rightarrow> bool" where
  "has_bigint (JBigInt n) = True"
| "has_bigint (JArr vs) = list_ex has_bigint vs"
| "has_bigint (JObj fs) = list_ex has_bigint (map snd fs)"
| "has_bigint v = False"

definition JSON_stringify :: "jsval \<Rightarrow> exn + storage_text" where
  "JSON_stringify v = (if has_bigint v then Inl TypeError else Inr (Json v))"

definition JSON_parse :: "storage_text \<Rightarrow> exn + jsval" where
  "JSON_parse t = (case t of Json v \<Rightarrow> Inr v | Empty \<Rightarrow> Inl SyntaxError | Malformed \<Rightarrow> Inl SyntaxError)"

fun truthy :: "jsval \<Rightarrow> bool" where
  "truthy JNull = False"
| "truthy (JBool b) = b"
| "truthy (JNum n) = (n \<noteq> 0)"
| "truthy (JStr s) = (s \<noteq> [])"
| "truthy (JBigInt n) = (n \<noteq> 0)"
| "truthy (JArr vs) = True"
| "truthy (JObj fs) = True"

text \<open>
  \<open>localStorage\<close>: the stored items, whether access is denied (every operation then
  throws a \<open>SecurityError\<close>), and the quota, as the test that decides whether the items
  still fit after a write (\<open>setItem\<close> throws a \<open>QuotaExceededError\<close> and stores nothing
  when they do not).
\<close>

record local_storage =
  items :: "(string \<times> storage_text) list"
  blocked :: bool
  fits :: "(string \<times> storage_text) list \<Rightarrow> bool"

definition getItem :: "local_storage \<Rightarrow> string \<Rightarrow> exn + storage_text option" where
  "getItem ls key = (if blocked ls then Inl SecurityError else Inr (map_of (items ls) key))"

definition setItem :: "local_storage \<Rightarrow> string \<Rightarrow> storage_text \<Rightarrow> exn + local_storage" where
  "setItem ls key v =
     (if blocked ls then Inl SecurityError
      else if fits ls (AList.update key v (items ls))
           then Inr (ls\<lparr>items := AList.update key v (items ls)\<rparr>)
           else Inl QuotaExceededError)"

definition try_catch :: "exn + 'a \<Rightarrow> (exn \<Rightarrow> exn + 'a) \<Rightarrow> exn + 'a" where
  "try_catch body handler = (case body of Inl e \<Rightarrow> handler e | Inr v \<Rightarrow> Inr v)"

text \<open>
  \<open>toLowerCase\<close>. A string is a list of 8-bit characters, read as the code points
  \<open>U+0000\<close> to \<open>U+00FF\<close>. Among these the capital letters are \<open>A\<close> to \<open>Z\<close> and
  \<open>U+00C0\<close> to \<open>U+00DE\<close> without the multiplication sign \<open>U+00D7\<close>; the lower-case
  letter is 32 code points further. Every other character is left as it is.
\<close>

definition lower_char :: "char \<Rightarrow> char" where
  "lower_char c =
     (if (CHR ''A'' \<le> c \<and> c \<le> CHR ''Z'') \<or>
         (CHR 0xC0 \<le> c \<and> c \<le> CHR 0xDE \<and> c \<noteq> CHR 0xD7)
      then char_of (of_char c + (32::nat)) else c)"

definition toLowerCase :: "string \<Rightarrow> string" where
  "toLowerCase s = map lower_char s"

text \<open>
  \<open>v.name.toLowerCase()\<close>: a \<open>TypeError\<close> unless \<open>v\<close> is an object whose \<open>name\<close> is a
  string.
\<close>

definition name_lower :: "jsval \<Rightarrow> exn + string" where
  "name_lower v =
     (case v of
        JObj fs \<Rightarrow>
          (case get_prop fs ''name'' of
             Own (JStr s) \<Rightarrow> Inr (toLowerCase s)
           | _ \<Rightarrow> Inl TypeError)
      | _ \<Rightarrow> Inl TypeError)"

text \<open>
  \<open>Array.prototype.some\<close> and \<open>filter\<close> with a callback that may throw: \<open>some\<close> stops at
  the first element accepted, \<open>filter\<close> visits every element.
\<close>

fun array_some :: "(jsval \<Rightarrow> exn + bool) \<Rightarrow> jsval list \<Rightarrow> exn + bool" where
  "array_some p [] = Inr False"
| "array_some p (v # vs) =
     (case p v of
        Inl e \<Rightarrow> Inl e
      | Inr b \<Rightarrow> if b then Inr True else array_some p vs)"

fun array_filter :: "(jsval \<Rightarrow> exn + bool) \<Rightarrow> jsval list \<Rightarrow> exn + jsval list" where
  "array_filter p [] = Inr []"
| "array_filter p (v # vs) =
     (case p v of
        Inl e \<Rightarrow> Inl e
      | Inr b \<Rightarrow>
          (case array_filter p vs of
             Inl e \<Rightarrow> Inl e
           | Inr r \<Rightarrow> Inr (if b then v # r else r)))"

text \<open>
  The operand of an arithmetic operator as a number: a stored number is the double nearest
  to its value, a \<open>BigInt\<close> operand is a \<open>TypeError\<close>, and the conversion of any other
  value to a number is the platform's, the parameter \<open>coerce\<close>.
\<close>

definition ToNumber :: "(jsval \<Rightarrow> number) \<Rightarrow> jsval \<Rightarrow> exn + number" where
  "ToNumber coerce v =
     (case v of
        JNum n \<Rightarrow> Inr (round_double (of_int n))
      | JBigInt n \<Rightarrow> Inl TypeError
      | _ \<Rightarrow> Inr (coerce v))"

definition not_a_number :: "jsval \<Rightarrow> number" where
  "not_a_number v = NaN"

subsection \<open>The store\<close>

text \<open>
  The body of each function below is its \<open>try\<close> block; the handler of \<open>catch\<close> logs the
  error with \<open>console.error\<close>, which does not affect the result, and returns the failure
  value. A function that changes local storage returns the new storage with its result.
\<close>

definition FAVORITE_CITIES :: string where
  "FAVORITE_CITIES = ''weather_favorite_cities''"

definition LAST_UPDATE :: string where
  "LAST_UPDATE = ''weather_last_update''"

definition saveToStorage :: "local_storage \<Rightarrow> string \<Rightarrow> jsval \<Rightarrow> exn + bool \<times> local_storage" where
  "saveToStorage ls key v =
     try_catch
       (case JSON_stringify v of
          Inl e \<Rightarrow> Inl e
        | Inr serialized \<Rightarrow>
            (case setItem ls key serialized of
               Inl e \<Rightarrow> Inl e
             | Inr ls' \<Rightarrow> Inr (True, ls')))
       (\<lambda>error. Inr (False, ls))"

definition getFromStorage :: "local_storage \<Rightarrow> string \<Rightarrow> exn + jsval" where
  "getFromStorage ls key =
     try_catch
       (case getItem ls key of
          Inl e \<Rightarrow> Inl e
        | Inr item \<Rightarrow>
            (case item of
               None \<Rightarrow> Inr JNull
             | Some Empty \<Rightarrow> Inr JNull
             | Some t \<Rightarrow> JSON_parse t))
       (\<lambda>error. Inr JNull)"

definition getFavoriteCities :: "local_storage \<Rightarrow> exn + jsval" where
  "getFavoriteCities ls =
     (case getFromStorage ls FAVORITE_CITIES of
        Inl e \<Rightarrow> Inl e
      | Inr favorites \<Rightarrow> Inr (if truthy favorites then favorites else JArr []))"

text \<open>
  \<open>addFavoriteCity(cityData)\<close>; \<open>cityData\<close> is an object, given by its properties, and
  \<open>now\<close> is the value of \<open>Date.now()\<close>. The callback of \<open>some\<close> compares
  \<open>fav.name.toLowerCase()\<close> with \<open>cityData.name.toLowerCase()\<close>.
\<close>

definition same_name :: "exn + string \<Rightarrow> jsval \<Rightarrow> exn + bool" where
  "same_name other fav =
     (case name_lower fav of
        Inl e \<Rightarrow> Inl e
      | Inr a \<Rightarrow> (case other of Inl e \<Rightarrow> Inl e | Inr b \<Rightarrow> Inr (a = b)))"

definition other_name :: "exn + string \<Rightarrow> jsval \<Rightarrow> exn + bool" where
  "other_name other fav =
     (case name_lower fav of
        Inl e \<Rightarrow> Inl e
      | Inr a \<Rightarrow> (case other of Inl e \<Rightarrow> Inl e | Inr b \<Rightarrow> Inr (a \<noteq> b)))"

definition addFavoriteCity ::
  "int \<Rightarrow> local_storage \<Rightarrow> (string \<times> jsval) list \<Rightarrow> exn + bool \<times> local_storage" where
  "addFavoriteCity now ls cityData =
     try_catch
       (case getFavoriteCities ls of
          Inl e \<Rightarrow> Inl e
        | Inr (JArr favorites) \<Rightarrow>
            (case array_some (same_name (name_lower (JObj cityData))) favorites of
               Inl e \<Rightarrow> Inl e
             | Inr exists \<Rightarrow>
                 if exists then Inr (False, ls)
                 else saveToStorage ls FAVORITE_CITIES
                        (JArr (favorites @ [JObj (AList.update ''addedAt'' (JNum now) cityData)])))
        | Inr _ \<Rightarrow> Inl TypeError)
       (\<lambda>error. Inr (False, ls))"

definition removeFavoriteCity :: "local_storage \<Rightarrow> string \<Rightarrow> exn + bool \<times> local_storage" where
  "removeFavoriteCity ls cityName =
     try_catch
       (case getFavoriteCities ls of
          Inl e \<Rightarrow> Inl e
        | Inr (JArr favorites) \<Rightarrow>
            (case array_filter (other_name (Inr (toLowerCase cityName))) favorites of
               Inl e \<Rightarrow> Inl e
             | Inr filtered \<Rightarrow> saveToStorage ls FAVORITE_CITIES (JArr filtered))
        | Inr _ \<Rightarrow> Inl TypeError)
       (\<lambda>error. Inr (False, ls))"

definition saveLastUpdate :: "local_storage \<Rightarrow> int \<Rightarrow> exn + bool \<times> local_storage" where
  "saveLastUpdate ls ts = saveToStorage ls LAST_UPDATE (JNum ts)"

definition getLastUpdate :: "local_storage \<Rightarrow> exn + jsval" where
  "getLastUpdate ls = getFromStorage ls LAST_UPDATE"

text \<open>
  \<open>needsRefresh(minutes)\<close>: \<open>minutes\<close> is any number and \<open>now\<close> is the value of
  \<open>Date.now()\<close>, an integer number of milliseconds. The difference, the two products and
  the comparison are those of doubles.
\<close>

definition needsRefresh ::
  "(jsval \<Rightarrow> number) \<Rightarrow> int \<Rightarrow> local_storage \<Rightarrow> number \<Rightarrow> exn + bool" where
  "needsRefresh coerce now ls minutes =
     (case getLastUpdate ls of
        Inl e \<Rightarrow> Inl e
      | Inr lastUpdate \<Rightarrow>
          if \<not> truthy lastUpdate then Inr True
          else (case ToNumber coerce lastUpdate of
                  Inl e \<Rightarrow> Inl e
                | Inr t \<Rightarrow>
                    let diff = num_sub (round_double (of_int now)) t;
                        threshold = num_mul (num_mul minutes (Finite 60)) (Finite 1000)
                    in Inr (num_gt diff threshold)))"

text \<open>Names used to state the properties of the store.\<close>

definition stored_favorites :: "local_storage \<Rightarrow> jsval list" where
  "stored_favorites ls = (case getFavoriteCities ls of Inr (JArr favs) \<Rightarrow> favs | _ \<Rightarrow> [])"

definition favorite_names :: "jsval list \<Rightarrow> string list" where
  "favorite_names favs = concat (map (\<lambda>f. case name_lower f of Inl e \<Rightarrow> [] | Inr n \<Rightarrow> [n]) favs)"

definition names_unique :: "local_storage \<Rightarrow> bool" where
  "names_unique ls = distinct (favorite_names (stored_favorites ls))"

definition has_name :: "jsval \<Rightarrow> bool" where
  "has_name f = (\<not> isl (name_lower f))"

definition unlimited :: "(string \<times> storage_text) list \<Rightarrow> bool" where
  "unlimited its = True"

definition empty_storage :: local_storage where
  "empty_storage = \<lparr> items = [], blocked = False, fits = unlimited \<rparr>"

definition city :: "string \<Rightarrow> (string \<times> jsval) list" where
  "city n = [(''name'', JStr n), (''country'', JStr ''FR''), (''temperature'', JNum 18),
             (''icon'', JStr ''01d'')]"

text \<open>Stores used as concrete inputs.\<close>

definition no_room :: "(string \<times> storage_text) list \<Rightarrow> bool" where
  "no_room its = False"

definition full_storage :: local_storage where
  "full_storage = \<lparr> items = [], blocked = False, fits = no_room \<rparr>"

definition blocked_storage :: local_storage where
  "blocked_storage = \<lparr> items = [], blocked = True, fits = unlimited \<rparr>"

definition corrupt_storage :: local_storage where
  "corrupt_storage = \<lparr> items = [(LAST_UPDATE, Malformed)], blocked = False, fits = unlimited \<rparr>"

definition store_with_update :: "int \<Rightarrow> local_storage" where
  "store_with_update t =
     \<lparr> items = [(LAST_UPDATE, Json (JNum t))], blocked = False, fits = unlimited \<rparr>"

definition favorite :: "string \<Rightarrow> int \<Rightarrow> jsval" where
  "favorite n t = JObj (city n @ [(''addedAt'', JNum t)])"

definition store_with_favorites :: "jsval list \<Rightarrow> local_storage" where
  "store_with_favorites favs =
     \<lparr> items = [(FAVORITE_CITIES, Json (JArr favs))], blocked = False, fits = unlimited \<rparr>"

section \<open>Properties of the icon mapping\<close>

lemma getWeatherIcon_known:
  "map_of iconMap c = Some s \<Longrightarrow> getWeatherIcon c = Symbol s"
  by (auto simp: getWeatherIcon_def get_prop_def iconMap_def split: if_splits)

lemma getWeatherIcon_unknown:
  "map_of iconMap c = None \<Longrightarrow> c \<notin> set Object_prototype_keys
     \<Longrightarrow> getWeatherIcon c = Symbol fallback_symbol"
  by (simp add: getWeatherIcon_def get_prop_def)

text \<open>
  C7. Every icon code should yield a symbol, the fallback symbol when the code is not a
  key of the mapping. The code \<open>constructor\<close> is not a key of the mapping, yet the lookup
  finds the member inherited from \<open>Object.prototype\<close>, which is truthy, and returns it in
  place of the fallback symbol.
\<close>

theorem getWeatherIcon_constructor:
  "map_of iconMap ''constructor'' = None \<and>
   getWeatherIcon ''constructor'' = PrototypeMember ''constructor'' \<and>
   getWeatherIcon ''constructor'' \<noteq> Symbol fallback_symbol"
  by (simp add: getWeatherIcon_def get_prop_def iconMap_def Object_prototype_keys_def)

section \<open>Properties of the forecast aggregation\<close>

lemma iso_date_dash: "CHR ''-'' \<in> set (iso_date t)"
  by (cases "civil_from_days (Day t)") (simp add: iso_date_def)

lemma iso_date_not_inherited: "iso_date t \<notin> set Object_prototype_keys"
proof
  assume "iso_date t \<in> set Object_prototype_keys"
  moreover have "\<forall>k\<in>set Object_prototype_keys. CHR ''-'' \<notin> set k"
    by (simp add: Object_prototype_keys_def)
  ultimately show False using iso_date_dash by blast
qed

lemma get_prop_iso_date:
  "get_prop obj (iso_date t) = (case map_of obj (iso_date t) of Some v \<Rightarrow> Own v | None \<Rightarrow> Undefined)"
  by (simp add: get_prop_def iso_date_not_inherited)

lemma update_absent: "map_of al k = None \<Longrightarrow> AList.update k v al = al @ [(k, v)]"
  by (induction al) (auto split: if_splits)

lemma dailyEntry_fields:
  "dailyEntry k x = Inr e \<Longrightarrow> date e = k \<and> timestamp e = dt x * 1000"
  by (auto simp: dailyEntry_def split: list.splits)

lemma forecast_step_cases:
  assumes "forecast_step tza m x = Inr m'"
  shows "time_valid (dt x * 1000) \<and>
    (case map_of m (dateKey_of x) of
       None \<Rightarrow> (\<exists>v. dailyEntry (dateKey_of x) x = Inr v \<and> m' = m @ [(dateKey_of x, v)])
     | Some e0 \<Rightarrow>
         if hour_distance tza x < noon_distance tza (timestamp e0)
         then (\<exists>v. dailyEntry (dateKey_of x) x = Inr v \<and> m' = AList.update (dateKey_of x) v m)
         else m' = m)"
  using assms
  by (auto simp: forecast_step_def toISOString_date_def dateKey_of_def replaces_def
      get_prop_iso_date set_prop_def update_absent hour_distance_def noon_distance_def Let_def
      split: if_splits option.splits sum.splits)

lemma forEach_item_append:
  "forEach_item tza m (xs @ ys) =
     (case forEach_item tza m xs of Inl e \<Rightarrow> Inl e | Inr m' \<Rightarrow> forEach_item tza m' ys)"
  by (induction xs arbitrary: m) (auto split: sum.splits)

lemma first_seen_snoc:
  "first_seen (ks @ [k]) = (if k \<in> set ks then first_seen ks else first_seen ks @ [k])"
  by (simp add: first_seen_def)

lemma set_first_seen: "set (first_seen ks) = set ks"
  by (simp add: first_seen_def)

lemma distinct_first_seen: "distinct (first_seen ks)"
  by (simp add: first_seen_def)

lemma selected_snoc_other:
  "selected tza xs k e \<Longrightarrow> dateKey_of x \<noteq> k \<Longrightarrow> selected tza (xs @ [x]) k e"
  unfolding selected_def
  apply (elim exE conjE)
  subgoal for pre s post
    by (rule exI[of _ pre], rule exI[of _ s], rule exI[of _ "post @ [x]"]) auto
  done

lemma selected_snoc_keep:
  "selected tza xs k e \<Longrightarrow> \<not> hour_distance tza x < noon_distance tza (timestamp e)
     \<Longrightarrow> selected tza (xs @ [x]) k e"
  unfolding selected_def
  apply (elim exE conjE)
  subgoal for pre s post
    apply (rule exI[of _ pre], rule exI[of _ s], rule exI[of _ "post @ [x]"])
    apply (auto simp: hour_distance_def dest!: dailyEntry_fields)
    done
  done

lemma selected_snoc_new:
  assumes "dailyEntry (dateKey_of x) x = Inr v"
    and "\<forall>y\<in>set xs. dateKey_of y = dateKey_of x \<longrightarrow> hour_distance tza x < hour_distance tza y"
  shows "selected tza (xs @ [x]) (dateKey_of x) v"
  unfolding selected_def
  by (rule exI[of _ xs], rule exI[of _ x], rule exI[of _ "[]"]) (use assms in auto)

lemma selected_bound:
  assumes "selected tza xs k e" "y \<in> set xs" "dateKey_of y = k"
  shows "noon_distance tza (timestamp e) \<le> hour_distance tza y"
  using assms unfolding selected_def
  by (auto simp: hour_distance_def dest!: dailyEntry_fields) fastforce+


lemma fold_inv_step:
  assumes inv: "fold_inv tza xs m" and step: "forecast_step tza m x = Inr m'"
  shows "fold_inv tza (xs @ [x]) m'"
proof -
  let ?k = "dateKey_of x"
  from inv have keys: "map fst m = first_seen (map dateKey_of xs)"
    and sel: "\<And>k e. map_of m k = Some e \<Longrightarrow> selected tza xs k e"
    by (auto simp: fold_inv_def)
  have dom: "map_of m k = None \<longleftrightarrow> k \<notin> dateKey_of ` set xs" for k
    using keys set_first_seen [of "map dateKey_of xs"]
    by (metis list.set_map map_of_eq_None_iff)
  show ?thesis
  proof (cases "map_of m ?k")
    case None
    with forecast_step_cases [OF step] obtain v
      where v: "dailyEntry ?k x = Inr v" and m': "m' = m @ [(?k, v)]"
      by auto
    from None have fresh: "?k \<notin> dateKey_of ` set xs"
      by (simp add: dom)
    have "map fst m' = first_seen (map dateKey_of (xs @ [x]))"
      using fresh by (simp add: m' keys first_seen_snoc)
    moreover have "selected tza (xs @ [x]) k e" if "map_of m' k = Some e" for k e
    proof (cases "k = ?k")
      case True
      with that None have "e = v"
        by (simp add: m' map_add_Some_iff)
      moreover have "selected tza (xs @ [x]) ?k v"
        using fresh by (intro selected_snoc_new [OF v]) (metis imageI)
      ultimately show ?thesis using True by simp
    next
      case False
      with that have "map_of m k = Some e"
        by (auto simp: m' map_add_Some_iff)
      then show ?thesis using False by (intro selected_snoc_other sel) auto
    qed
    ultimately show ?thesis by (simp add: fold_inv_def)
  next
    case (Some e0)
    then have present: "?k \<in> dateKey_of ` set xs"
      using dom [of ?k] by auto
    have keys_same: "first_seen (map dateKey_of (xs @ [x])) = first_seen (map dateKey_of xs)"
      using present by (simp add: first_seen_snoc)
    have fst_in: "?k \<in> fst ` set m"
      using Some by (metis map_of_eq_None_iff option.distinct(1))
    show ?thesis
    proof (cases "hour_distance tza x < noon_distance tza (timestamp e0)")
      case True
      with Some forecast_step_cases [OF step] obtain v
        where v: "dailyEntry ?k x = Inr v" and m': "m' = AList.update ?k v m"
        by auto
      have "map fst m' = map fst m"
        using fst_in by (simp add: m' update_keys)
      then have "map fst m' = first_seen (map dateKey_of (xs @ [x]))"
        by (simp only: keys keys_same)
      moreover have "selected tza (xs @ [x]) k e" if "map_of m' k = Some e" for k e
      proof (cases "k = ?k")
        case k: True
        with that have "e = v"
          by (simp add: m' update_conv')
        moreover have "selected tza (xs @ [x]) ?k v"
        proof (intro selected_snoc_new [OF v] ballI impI)
          fix y assume "y \<in> set xs" "dateKey_of y = ?k"
          then have "noon_distance tza (timestamp e0) \<le> hour_distance tza y"
            using selected_bound [OF sel [OF Some]] by simp
          with True show "hour_distance tza x < hour_distance tza y" by simp
        qed
        ultimately show ?thesis using k by simp
      next
        case False
        with that have "map_of m k = Some e"
          by (simp add: m' update_conv')
        then show ?thesis using False by (intro selected_snoc_other sel) auto
      qed
      ultimately show ?thesis by (simp add: fold_inv_def)
    next
      case False
      with Some forecast_step_cases [OF step] have m': "m' = m"
        by auto
      have "selected tza (xs @ [x]) k e" if "map_of m k = Some e" for k e
      proof (cases "k = ?k")
        case True
        with that Some have "e = e0" by simp
        then show ?thesis
          using True False selected_snoc_keep [OF sel [OF Some]] by simp
      next
        case False
        then show ?thesis using that by (intro selected_snoc_other sel) auto
      qed
      moreover have "map fst m' = first_seen (map dateKey_of (xs @ [x]))"
        by (simp only: m' keys keys_same)
      ultimately show ?thesis by (simp add: fold_inv_def m')
    qed
  qed
qed

lemma forEach_item_inv:
  "forEach_item tza [] xs = Inr m \<Longrightarrow> fold_inv tza xs m"
proof (induction xs arbitrary: m rule: rev_induct)
  case Nil
  then show ?case by (simp add: fold_inv_def first_seen_def)
next
  case (snoc x xs)
  from snoc.prems obtain m0 where m0: "forEach_item tza [] xs = Inr m0"
    and step: "forecast_step tza m0 x = Inr m"
    by (auto simp: forEach_item_append split: sum.splits)
  show ?case by (rule fold_inv_step [OF snoc.IH [OF m0] step])
qed

lemma forecast_step_total:
  assumes "time_valid (dt x * 1000)" "weather x \<noteq> []"
  shows "\<exists>m'. forecast_step tza m x = Inr m'"
  using assms
  by (cases "weather x")
     (auto simp: forecast_step_def toISOString_date_def dailyEntry_def Let_def)

lemma forEach_item_total:
  "\<forall>x\<in>set xs. time_valid (dt x * 1000) \<and> weather x \<noteq> []
     \<Longrightarrow> \<exists>m'. forEach_item tza m xs = Inr m'"
proof (induction xs arbitrary: m)
  case Nil
  then show ?case by simp
next
  case (Cons x xs)
  then obtain m1 where "forecast_step tza m x = Inr m1"
    using forecast_step_total [of x tza m] by auto
  with Cons show ?case by simp
qed

lemma fold_inv_dates:
  assumes "fold_inv tza xs m"
  shows "map date (Object_values m) = first_seen (map dateKey_of xs)"
proof -
  have d: "distinct (map fst m)"
    using assms by (simp add: fold_inv_def distinct_first_seen)
  have "date (snd p) = fst p" if "p \<in> set m" for p
  proof -
    from that d have "map_of m (fst p) = Some (snd p)" by simp
    with assms have "selected tza xs (fst p) (snd p)" by (simp add: fold_inv_def)
    then show ?thesis by (auto simp: selected_def dest: dailyEntry_fields)
  qed
  then have "map date (Object_values m) = map fst m"
    by (simp add: Object_values_def)
  with assms show ?thesis by (simp add: fold_inv_def)
qed

lemma fold_inv_entry:
  assumes "fold_inv tza xs m" "e \<in> set (Object_values m)"
  shows "selected tza xs (date e) e"
proof -
  have d: "distinct (map fst m)"
    using assms by (simp add: fold_inv_def distinct_first_seen)
  from assms(2) obtain k where "(k, e) \<in> set m"
    by (auto simp: Object_values_def)
  with d have "map_of m k = Some e" by simp
  with assms have s: "selected tza xs k e" by (simp add: fold_inv_def)
  then have "date e = k" by (auto simp: selected_def dest: dailyEntry_fields)
  with s show ?thesis by simp
qed

lemma sorted_first_seen: "sorted ks \<Longrightarrow> sorted (first_seen ks)"
proof (induction ks rule: rev_induct)
  case Nil
  then show ?case by (simp add: first_seen_def)
next
  case (snoc k ks)
  then show ?case
    by (auto simp: first_seen_snoc sorted_append set_first_seen)
qed

lemma formatForecast_returns:
  assumes "\<forall>x\<in>set xs. time_valid (dt x * 1000) \<and> weather x \<noteq> []"
  shows "\<exists>m. fold_inv tza xs m \<and> formatForecast tza xs = Inr (take 5 (Object_values m))"
proof -
  from forEach_item_total [OF assms] obtain m where m: "forEach_item tza [] xs = Inr m"
    by blast
  then have "formatForecast tza xs = Inr (take 5 (Object_values m))"
    by (simp add: formatForecast_def)
  with forEach_item_inv [OF m] show ?thesis by blast
qed

text \<open>
  C1 (amended). When every sample has a timestamp in the range of valid dates and a
  non-empty weather list, \<open>formatForecast\<close> returns at most 5 entries with pairwise
  different date keys, namely the first five distinct date keys of the input in the order
  in which they first occur; the entries are in ascending order of date key whenever the
  date keys of the input are. The function does not sort.
\<close>

theorem formatForecast_first_seen_order:
  assumes "\<forall>x\<in>set xs. time_valid (dt x * 1000) \<and> weather x \<noteq> []"
  shows "\<exists>r. formatForecast tza xs = Inr r \<and> length r \<le> 5 \<and> distinct (map date r) \<and>
           map date r = take 5 (first_seen (map dateKey_of xs)) \<and>
           (sorted (map dateKey_of xs) \<longrightarrow> sorted (map date r))"
proof -
  from forEach_item_total [OF assms] obtain m where m: "forEach_item tza [] xs = Inr m"
    by blast
  let ?r = "take 5 (Object_values m)"
  have r: "formatForecast tza xs = Inr ?r"
    by (simp add: formatForecast_def m)
  have dates: "map date ?r = take 5 (first_seen (map dateKey_of xs))"
    using fold_inv_dates [OF forEach_item_inv [OF m]] by (metis take_map)
  have "distinct (map date ?r)"
    unfolding dates by (rule distinct_take) (rule distinct_first_seen)
  moreover have "sorted (map date ?r)" if "sorted (map dateKey_of xs)"
    unfolding dates using sorted_first_seen [OF that] by (rule sorted_wrt_take)
  ultimately show ?thesis using r dates by auto
qed

theorem formatForecast_first_seen_order_witness:
  "time_valid (dt (sample_at 1704196800) * 1000) \<and> weather (sample_at 1704196800) \<noteq> [] \<and>
   time_valid (dt (sample_at 1704110400) * 1000) \<and> weather (sample_at 1704110400) \<noteq> [] \<and>
   time_valid (dt (sample_at 1704207600) * 1000) \<and> weather (sample_at 1704207600) \<noteq> [] \<and>
   (\<exists>r. formatForecast utc_zone
          [sample_at 1704196800, sample_at 1704110400, sample_at 1704207600] = Inr r \<and>
        length r \<le> 5 \<and> distinct (map date r) \<and>
        map date r = [''2024-01-02'', ''2024-01-01''])"
proof -
  let ?xs = "[sample_at 1704196800, sample_at 1704110400, sample_at 1704207600]"
  have h: "\<forall>x\<in>set ?xs. time_valid (dt x * 1000) \<and> weather x \<noteq> []"
    by (simp add: sample_at_def time_valid_def)
  have k: "take 5 (first_seen (map dateKey_of ?xs)) = [''2024-01-02'', ''2024-01-01'']"
    by code_simp
  from formatForecast_first_seen_order [OF h, of utc_zone]
  obtain r where "formatForecast utc_zone ?xs = Inr r"
    and "length r \<le> 5" and "distinct (map date r)"
    and "map date r = take 5 (first_seen (map dateKey_of ?xs))"
    by blast
  with h k show ?thesis by auto
qed

text \<open>
  The claim as stated, with the result in ascending order of date key for every non-empty
  input, fails on an input that lists a later day before an earlier one.
\<close>

theorem formatForecast_not_ascending:
  "[sample_at 1704196800, sample_at 1704110400] \<noteq> [] \<and>
   formatForecast utc_zone [sample_at 1704196800, sample_at 1704110400] =
     Inr [entry_at ''2024-01-02'' 1704196800, entry_at ''2024-01-01'' 1704110400] \<and>
   \<not> sorted (map date [entry_at ''2024-01-02'' 1704196800, entry_at ''2024-01-01'' 1704110400])"
proof -
  have "formatForecast utc_zone [sample_at 1704196800, sample_at 1704110400] =
     Inr [entry_at ''2024-01-02'' 1704196800, entry_at ''2024-01-01'' 1704110400]"
    by code_simp
  then show ?thesis by (simp add: entry_at_def)
qed

text \<open>
  C2. On samples with valid timestamps and non-empty weather lists, \<open>formatForecast\<close>
  returns one entry for each of the first five days, and every returned entry was built
  from a sample \<open>s\<close> of its day such that no earlier sample of that day is at the same
  distance from noon: of two same-day samples at equal distance (hours 10 and 14, say) the
  one earlier in the input is retained, since a later sample replaces the recorded one only
  when strictly closer.
\<close>

theorem formatForecast_tie_keeps_first:
  assumes "\<forall>x\<in>set xs. time_valid (dt x * 1000) \<and> weather x \<noteq> []"
  shows "\<exists>r. formatForecast tza xs = Inr r \<and>
           map date r = take 5 (first_seen (map dateKey_of xs)) \<and>
           (\<forall>e\<in>set r. \<exists>pre s post. xs = pre @ s # post \<and> dateKey_of s = date e \<and>
              dailyEntry (date e) s = Inr e \<and>
              (\<forall>y\<in>set pre. dateKey_of y = date e \<longrightarrow>
                 hour_distance tza y \<noteq> hour_distance tza s))"
proof -
  from formatForecast_returns [OF assms] obtain m
    where m: "fold_inv tza xs m"
      and r: "formatForecast tza xs = Inr (take 5 (Object_values m))"
    by blast
  have ent: "\<exists>pre s post. xs = pre @ s # post \<and> dateKey_of s = date e \<and>
          dailyEntry (date e) s = Inr e \<and>
          (\<forall>y\<in>set pre. dateKey_of y = date e \<longrightarrow>
             hour_distance tza y \<noteq> hour_distance tza s)"
    if "e \<in> set (take 5 (Object_values m))" for e
  proof -
    from that have "e \<in> set (Object_values m)"
      by (rule in_set_takeD)
    from fold_inv_entry [OF m this] show ?thesis
      unfolding selected_def by fastforce
  qed
  have dates: "map date (take 5 (Object_values m)) = take 5 (first_seen (map dateKey_of xs))"
    using fold_inv_dates [OF m] by (metis take_map)
  show ?thesis
  proof (rule exI [of _ "take 5 (Object_values m)"], intro conjI ballI)
    show "formatForecast tza xs = Inr (take 5 (Object_values m))"
      by (fact r)
    show "map date (take 5 (Object_values m)) = take 5 (first_seen (map dateKey_of xs))"
      by (fact dates)
  qed (rule ent)
qed

theorem formatForecast_tie_keeps_first_witness:
  "time_valid (dt (sample_at 1704189600) * 1000) \<and> weather (sample_at 1704189600) \<noteq> [] \<and>
   time_valid (dt (sample_at 1704204000) * 1000) \<and> weather (sample_at 1704204000) \<noteq> [] \<and>
   hour_distance utc_zone (sample_at 1704189600) = 2 \<and>
   hour_distance utc_zone (sample_at 1704204000) = 2 \<and>
   formatForecast utc_zone [sample_at 1704189600, sample_at 1704204000] =
     Inr [entry_at ''2024-01-02'' 1704189600] \<and>
   (\<exists>pre s post. [sample_at 1704189600, sample_at 1704204000] = pre @ s # post \<and>
      dateKey_of s = ''2024-01-02'' \<and>
      dailyEntry ''2024-01-02'' s = Inr (entry_at ''2024-01-02'' 1704189600) \<and>
      (\<forall>y\<in>set pre. dateKey_of y = ''2024-01-02'' \<longrightarrow>
         hour_distance utc_zone y \<noteq> hour_distance utc_zone s))"
proof -
  let ?xs = "[sample_at 1704189600, sample_at 1704204000]"
  have h: "\<forall>x\<in>set ?xs. time_valid (dt x * 1000) \<and> weather x \<noteq> []"
    by (simp add: sample_at_def time_valid_def)
  have r: "formatForecast utc_zone ?xs = Inr [entry_at ''2024-01-02'' 1704189600]"
    by code_simp
  have d1: "hour_distance utc_zone (sample_at 1704189600) = 2"
    by code_simp
  have d2: "hour_distance utc_zone (sample_at 1704204000) = 2"
    by code_simp
  have k: "date (entry_at ''2024-01-02'' 1704189600) = ''2024-01-02''"
    by (simp add: entry_at_def)
  from formatForecast_tie_keeps_first [OF h, of utc_zone] obtain r0
    where r0: "formatForecast utc_zone ?xs = Inr r0"
      and ent: "\<forall>e\<in>set r0. \<exists>pre s post. ?xs = pre @ s # post \<and> dateKey_of s = date e \<and>
              dailyEntry (date e) s = Inr e \<and>
              (\<forall>y\<in>set pre. dateKey_of y = date e \<longrightarrow>
                 hour_distance utc_zone y \<noteq> hour_distance utc_zone s)"
    by blast
  from r0 r have "entry_at ''2024-01-02'' 1704189600 \<in> set r0"
    by auto
  from bspec [OF ent this]
  have "\<exists>pre s post. ?xs = pre @ s # post \<and>
      dateKey_of s = ''2024-01-02'' \<and>
      dailyEntry ''2024-01-02'' s = Inr (entry_at ''2024-01-02'' 1704189600) \<and>
      (\<forall>y\<in>set pre. dateKey_of y = ''2024-01-02'' \<longrightarrow>
         hour_distance utc_zone y \<noteq> hour_distance utc_zone s)"
    unfolding k .
  with h r d1 d2 show ?thesis by simp
qed

text \<open>
  C3. On samples with valid timestamps and non-empty weather lists, \<open>formatForecast\<close>
  returns one entry for each of the first five days, and every returned entry was built
  from a sample of its day that is at least as close to noon as every other sample of that
  day in the input: of two same-day samples the one strictly closer to 12 is selected
  (hour 14 against hour 9).
\<close>

theorem formatForecast_closest_to_noon:
  assumes "\<forall>x\<in>set xs. time_valid (dt x * 1000) \<and> weather x \<noteq> []"
  shows "\<exists>r. formatForecast tza xs = Inr r \<and>
           map date r = take 5 (first_seen (map dateKey_of xs)) \<and>
           (\<forall>e\<in>set r. \<exists>s\<in>set xs. dateKey_of s = date e \<and> dailyEntry (date e) s = Inr e \<and>
              (\<forall>y\<in>set xs. dateKey_of y = date e \<longrightarrow>
                 hour_distance tza s \<le> hour_distance tza y))"
proof -
  from formatForecast_returns [OF assms] obtain m
    where m: "fold_inv tza xs m"
      and r: "formatForecast tza xs = Inr (take 5 (Object_values m))"
    by blast
  have ent: "\<exists>s\<in>set xs. dateKey_of s = date e \<and> dailyEntry (date e) s = Inr e \<and>
          (\<forall>y\<in>set xs. dateKey_of y = date e \<longrightarrow>
             hour_distance tza s \<le> hour_distance tza y)"
    if "e \<in> set (take 5 (Object_values m))" for e
  proof -
    from that have "e \<in> set (Object_values m)"
      by (rule in_set_takeD)
    from fold_inv_entry [OF m this] have sel: "selected tza xs (date e) e" .
    then obtain s where s: "s \<in> set xs" "dateKey_of s = date e" "dailyEntry (date e) s = Inr e"
      unfolding selected_def by (metis in_set_conv_decomp)
    have "hour_distance tza s \<le> hour_distance tza y"
      if "y \<in> set xs" "dateKey_of y = date e" for y
      using selected_bound [OF sel that] dailyEntry_fields [OF s(3)]
      by (simp add: hour_distance_def)
    with s show ?thesis by blast
  qed
  have dates: "map date (take 5 (Object_values m)) = take 5 (first_seen (map dateKey_of xs))"
    using fold_inv_dates [OF m] by (metis take_map)
  show ?thesis
  proof (rule exI [of _ "take 5 (Object_values m)"], intro conjI ballI)
    show "formatForecast tza xs = Inr (take 5 (Object_values m))"
      by (fact r)
    show "map date (take 5 (Object_values m)) = take 5 (first_seen (map dateKey_of xs))"
      by (fact dates)
  qed (rule ent)
qed

theorem formatForecast_closest_to_noon_witness:
  "time_valid (dt (sample_at 1704186000) * 1000) \<and> weather (sample_at 1704186000) \<noteq> [] \<and>
   time_valid (dt (sample_at 1704204000) * 1000) \<and> weather (sample_at 1704204000) \<noteq> [] \<and>
   dateKey_of (sample_at 1704186000) = dateKey_of (sample_at 1704204000) \<and>
   getHours utc_zone (dt (sample_at 1704186000) * 1000) = 9 \<and>
   getHours utc_zone (dt (sample_at 1704204000) * 1000) = 14 \<and>
   formatForecast utc_zone [sample_at 1704186000, sample_at 1704204000] =
     Inr [entry_at ''2024-01-02'' 1704204000] \<and>
   (\<exists>s\<in>set [sample_at 1704186000, sample_at 1704204000].
      dateKey_of s = ''2024-01-02'' \<and>
      dailyEntry ''2024-01-02'' s = Inr (entry_at ''2024-01-02'' 1704204000) \<and>
      (\<forall>y\<in>set [sample_at 1704186000, sample_at 1704204000].
         dateKey_of y = ''2024-01-02'' \<longrightarrow>
         hour_distance utc_zone s \<le> hour_distance utc_zone y))"
proof -
  let ?xs = "[sample_at 1704186000, sample_at 1704204000]"
  have h: "\<forall>x\<in>set ?xs. time_valid (dt x * 1000) \<and> weather x \<noteq> []"
    by (simp add: sample_at_def time_valid_def)
  have r: "formatForecast utc_zone ?xs = Inr [entry_at ''2024-01-02'' 1704204000]"
    by code_simp
  have same: "dateKey_of (sample_at 1704186000) = dateKey_of (sample_at 1704204000)"
    by code_simp
  have h1: "getHours utc_zone (dt (sample_at 1704186000) * 1000) = 9"
    by code_simp
  have h2: "getHours utc_zone (dt (sample_at 1704204000) * 1000) = 14"
    by code_simp
  have k: "date (entry_at ''2024-01-02'' 1704204000) = ''2024-01-02''"
    by (simp add: entry_at_def)
  from formatForecast_closest_to_noon [OF h, of utc_zone] obtain r0
    where r0: "formatForecast utc_zone ?xs = Inr r0"
      and ent: "\<forall>e\<in>set r0. \<exists>s\<in>set ?xs. dateKey_of s = date e \<and>
              dailyEntry (date e) s = Inr e \<and>
              (\<forall>y\<in>set ?xs. dateKey_of y = date e \<longrightarrow>
                 hour_distance utc_zone s \<le> hour_distance utc_zone y)"
    by blast
  from r0 r have "entry_at ''2024-01-02'' 1704204000 \<in> set r0"
    by auto
  from bspec [OF ent this]
  have "\<exists>s\<in>set ?xs.
      dateKey_of s = ''2024-01-02'' \<and>
      dailyEntry ''2024-01-02'' s = Inr (entry_at ''2024-01-02'' 1704204000) \<and>
      (\<forall>y\<in>set ?xs. dateKey_of y = ''2024-01-02'' \<longrightarrow>
         hour_distance utc_zone s \<le> hour_distance utc_zone y)"
    unfolding k .
  with h r same h1 h2 show ?thesis by simp
qed

section \<open>Properties of the preference store\<close>

lemma saveToStorage_eq:
  "saveToStorage ls key v =
     Inr (if \<not> has_bigint v \<and> \<not> blocked ls \<and> fits ls (AList.update key (Json v) (items ls))
          then (True, ls\<lparr>items := AList.update key (Json v) (items ls)\<rparr>)
          else (False, ls))"
  by (simp add: saveToStorage_def try_catch_def JSON_stringify_def setItem_def)

lemma getFromStorage_eq:
  "getFromStorage ls key =
     Inr (if blocked ls then JNull
          else (case map_of (items ls) key of Some (Json v) \<Rightarrow> v | _ \<Rightarrow> JNull))"
  by (simp add: getFromStorage_def try_catch_def getItem_def JSON_parse_def
      split: option.splits storage_text.splits)

lemma getFromStorage_after_save:
  assumes "saveToStorage ls key v = Inr (True, ls')"
  shows "getFromStorage ls' key = Inr v"
  using assms
  by (auto simp: saveToStorage_eq getFromStorage_eq update_conv' split: if_splits)

lemma save_failed_unchanged:
  "saveToStorage ls key v = Inr (False, ls') \<Longrightarrow> ls' = ls"
  by (auto simp: saveToStorage_eq split: if_splits)

lemma getFavoriteCities_after_save:
  assumes "saveToStorage ls FAVORITE_CITIES (JArr favs) = Inr (True, ls')"
  shows "getFavoriteCities ls' = Inr (JArr favs)"
  using getFromStorage_after_save [OF assms] by (simp add: getFavoriteCities_def)

lemma getFavoriteCities_total: "\<exists>v. getFavoriteCities ls = Inr v"
  by (simp add: getFavoriteCities_def getFromStorage_eq)

lemma array_some_True:
  "f \<in> set favs \<Longrightarrow> p f = Inr True \<Longrightarrow> array_some p favs = Inr True \<or> isl (array_some p favs)"
  by (induction favs) (auto split: sum.splits)

lemma array_some_False:
  "array_some p favs = Inr False \<Longrightarrow> f \<in> set favs \<Longrightarrow> p f = Inr False"
  by (induction favs) (auto split: sum.splits if_splits)

lemma array_filter_Inr:
  "array_filter p favs = Inr r \<Longrightarrow>
     (\<forall>f\<in>set favs. \<not> isl (p f)) \<and> r = filter (\<lambda>f. p f = Inr True) favs"
  by (induction favs arbitrary: r) (auto split: sum.splits if_splits)

lemma array_filter_total:
  "\<forall>f\<in>set favs. \<not> isl (p f) \<Longrightarrow> \<exists>r. array_filter p favs = Inr r"
  by (induction favs) (auto split: sum.splits simp: isl_def)

lemma name_lower_addedAt:
  "name_lower (JObj (AList.update ''addedAt'' v c)) = name_lower (JObj c)"
  by (simp add: name_lower_def get_prop_def update_conv')

lemma favorite_names_append:
  "favorite_names (xs @ ys) = favorite_names xs @ favorite_names ys"
  by (simp add: favorite_names_def)

lemma favorite_names_mem:
  "n \<in> set (favorite_names favs) \<longleftrightarrow> (\<exists>f\<in>set favs. name_lower f = Inr n)"
  by (induction favs) (auto simp: favorite_names_def split: sum.splits)

lemma same_name_False:
  "same_name other f = Inr False \<Longrightarrow> \<exists>a b. name_lower f = Inr a \<and> other = Inr b \<and> a \<noteq> b"
  by (auto simp: same_name_def split: sum.splits)

lemma stored_favorites_eq:
  "getFavoriteCities ls = Inr (JArr favs) \<Longrightarrow> stored_favorites ls = favs"
  by (simp add: stored_favorites_def)


lemma add_accepted:
  assumes "addFavoriteCity now ls c = Inr (True, ls')"
  shows "\<exists>favs. getFavoriteCities ls = Inr (JArr favs) \<and>
           array_some (same_name (name_lower (JObj c))) favs = Inr False \<and>
           getFavoriteCities ls' =
             Inr (JArr (favs @ [JObj (AList.update ''addedAt'' (JNum now) c)]))"
proof -
  obtain v where v: "getFavoriteCities ls = Inr v"
    using getFavoriteCities_total by blast
  with assms obtain favs where favs: "v = JArr favs"
    by (cases v) (auto simp: addFavoriteCity_def try_catch_def)
  let ?new = "JObj (AList.update ''addedAt'' (JNum now) c)"
  from assms v favs
  have some: "array_some (same_name (name_lower (JObj c))) favs = Inr False"
    by (auto simp: addFavoriteCity_def try_catch_def split: sum.splits if_splits)
  with assms v favs
  have "saveToStorage ls FAVORITE_CITIES (JArr (favs @ [?new])) = Inr (True, ls')"
    by (auto simp: addFavoriteCity_def try_catch_def split: sum.splits)
  from getFavoriteCities_after_save [OF this] v favs some show ?thesis
    by simp
qed

lemma add_rejected:
  assumes "addFavoriteCity now ls c = Inr (False, ls')"
  shows "ls' = ls"
proof -
  obtain v where v: "getFavoriteCities ls = Inr v"
    using getFavoriteCities_total by blast
  show ?thesis
    using assms v
    by (cases v)
       (auto simp: addFavoriteCity_def try_catch_def
             split: sum.splits if_splits dest: save_failed_unchanged)
qed

lemma add_total: "\<exists>b ls'. addFavoriteCity now ls c = Inr (b, ls')"
proof -
  obtain v where v: "getFavoriteCities ls = Inr v"
    using getFavoriteCities_total by blast
  show ?thesis
    using v
    by (cases v)
       (auto simp: addFavoriteCity_def try_catch_def saveToStorage_eq split: sum.splits)
qed

lemma add_duplicate:
  assumes favs: "getFavoriteCities ls = Inr (JArr favs)"
    and f: "f \<in> set favs" and n: "name_lower f = Inr n" and c: "name_lower (JObj c) = Inr n"
  shows "addFavoriteCity now ls c = Inr (False, ls)"
proof -
  have "same_name (name_lower (JObj c)) f = Inr True"
    by (simp add: same_name_def n c)
  from array_some_True [of f favs "same_name (name_lower (JObj c))", OF f this] favs
  show ?thesis
    by (auto simp: addFavoriteCity_def try_catch_def isl_def)
qed

lemma accepted_names:
  assumes "array_some (same_name (name_lower (JObj c))) favs = Inr False"
  shows "favorite_names (favs @ [JObj (AList.update ''addedAt'' v c)]) =
           favorite_names favs @ favorite_names [JObj c] \<and>
         set (favorite_names favs) \<inter> set (favorite_names [JObj c]) = {}"
proof -
  have "favorite_names [JObj (AList.update ''addedAt'' v c)] = favorite_names [JObj c]"
    by (simp add: favorite_names_def name_lower_addedAt)
  moreover have "n \<notin> set (favorite_names [JObj c])" if "n \<in> set (favorite_names favs)" for n
  proof -
    from that obtain f where f: "f \<in> set favs" "name_lower f = Inr n"
      by (auto simp: favorite_names_mem)
    from same_name_False [OF array_some_False [OF assms f(1)]] f(2)
    show ?thesis by (auto simp: favorite_names_mem)
  qed
  ultimately show ?thesis
    by (auto simp: favorite_names_append)
qed

lemma array_some_none:
  "\<forall>f\<in>set favs. p f = Inr False \<Longrightarrow> array_some p favs = Inr False"
  by (induction favs) auto

lemma has_bigint_update:
  "list_ex has_bigint (map snd (AList.update k v al)) \<Longrightarrow>
     has_bigint v \<or> list_ex has_bigint (map snd al)"
  by (induction al) (auto split: if_splits)

lemma count_list_distinct: "distinct xs \<Longrightarrow> x \<in> set xs \<Longrightarrow> count_list xs x = 1"
  by (induction xs) (auto simp: count_list_0_iff)

lemma add_succeeds:
  assumes favs: "getFavoriteCities ls = Inr (JArr favs)"
    and wf: "list_all has_name favs"
    and nb: "\<not> has_bigint (JArr favs)"
    and nbc: "\<not> has_bigint (JObj c)"
    and c: "name_lower (JObj c) = Inr n"
    and fresh: "n \<notin> set (favorite_names favs)"
    and open_store: "\<not> blocked ls"
    and room: "fits ls (AList.update FAVORITE_CITIES
                 (Json (JArr (favs @ [JObj (AList.update ''addedAt'' (JNum now) c)])))
                 (items ls))"
  shows "\<exists>ls'. addFavoriteCity now ls c = Inr (True, ls')"
proof -
  let ?new = "JObj (AList.update ''addedAt'' (JNum now) c)"
  have "same_name (name_lower (JObj c)) f = Inr False" if "f \<in> set favs" for f
  proof -
    from wf that have "has_name f"
      by (simp add: list_all_iff)
    then obtain a where a: "name_lower f = Inr a"
      by (cases "name_lower f") (simp_all add: has_name_def)
    with that fresh have "a \<noteq> n"
      by (auto simp: favorite_names_mem)
    with a c show ?thesis
      by (simp add: same_name_def)
  qed
  then have some: "array_some (same_name (name_lower (JObj c))) favs = Inr False"
    by (intro array_some_none) blast
  have "\<not> has_bigint ?new"
    using nbc has_bigint_update [of "''addedAt''" "JNum now" c] by auto
  with nb have "\<not> has_bigint (JArr (favs @ [?new]))"
    by simp
  with favs some open_store room show ?thesis
    by (simp add: addFavoriteCity_def try_catch_def saveToStorage_eq)
qed

text \<open>
  C5. \<open>names_unique\<close>: no two stored favorites have the same lower-cased name. Every call
  of \<open>addFavoriteCity\<close> returns without throwing and preserves this invariant. When
  storage is accessible, the stored favorites all have names and the write fits, the call
  stores the city exactly when no stored favorite has its lower-cased name; in either case
  a following call with a name that differs only in case is rejected and leaves the store
  as it is, and the store then holds exactly one favorite with that name (\<open>Paris\<close> then
  \<open>paris\<close>).
\<close>

theorem addFavoriteCity_names_unique:
  assumes inv: "names_unique ls"
  shows "\<exists>b ls'. addFavoriteCity now ls cityData = Inr (b, ls') \<and> names_unique ls' \<and>
           (b \<and> name_lower (JObj cityData) = Inr n \<and> name_lower (JObj other) = Inr n \<longrightarrow>
              addFavoriteCity later ls' other = Inr (False, ls') \<and>
              count_list (favorite_names (stored_favorites ls')) n = 1) \<and>
           (getFavoriteCities ls = Inr (JArr favs) \<and> list_all has_name favs \<and>
            \<not> has_bigint (JArr favs) \<and> \<not> has_bigint (JObj cityData) \<and>
            name_lower (JObj cityData) = Inr n \<and> name_lower (JObj other) = Inr n \<and>
            \<not> blocked ls \<and>
            fits ls (AList.update FAVORITE_CITIES
              (Json (JArr (favs @ [JObj (AList.update ''addedAt'' (JNum now) cityData)])))
              (items ls)) \<longrightarrow>
              b = (n \<notin> set (favorite_names favs)) \<and>
              addFavoriteCity later ls' other = Inr (False, ls') \<and>
              count_list (favorite_names (stored_favorites ls')) n = 1)"
proof -
  from add_total obtain b ls' where r: "addFavoriteCity now ls cityData = Inr (b, ls')"
    by blast
  let ?new = "JObj (AList.update ''addedAt'' (JNum now) cityData)"
  have accepted: "names_unique ls' \<and>
      (name_lower (JObj cityData) = Inr n \<and> name_lower (JObj other) = Inr n \<longrightarrow>
         addFavoriteCity later ls' other = Inr (False, ls') \<and>
         count_list (favorite_names (stored_favorites ls')) n = 1)" if b
  proof -
    from r that have r': "addFavoriteCity now ls cityData = Inr (True, ls')"
      by simp
    from add_accepted [OF r'] obtain old
      where old: "getFavoriteCities ls = Inr (JArr old)"
        and some: "array_some (same_name (name_lower (JObj cityData))) old = Inr False"
        and new: "getFavoriteCities ls' = Inr (JArr (old @ [?new]))"
      by blast
    note names = accepted_names [OF some, of "JNum now"]
    have single: "distinct (favorite_names [JObj cityData])"
      by (simp add: favorite_names_def split: sum.splits)
    from inv old have "distinct (favorite_names old)"
      by (simp add: names_unique_def stored_favorites_eq)
    with names single have uniq: "names_unique ls'"
      by (simp add: names_unique_def stored_favorites_eq [OF new])
    have "addFavoriteCity later ls' other = Inr (False, ls') \<and>
          count_list (favorite_names (stored_favorites ls')) n = 1"
      if c: "name_lower (JObj cityData) = Inr n" and o: "name_lower (JObj other) = Inr n"
    proof
      have "name_lower ?new = Inr n"
        by (simp add: name_lower_addedAt c)
      then show "addFavoriteCity later ls' other = Inr (False, ls')"
        by (intro add_duplicate [OF new _ _ o]) auto
      have "favorite_names [JObj cityData] = [n]"
        by (simp add: favorite_names_def c)
      with names have "favorite_names (old @ [?new]) = favorite_names old @ [n]"
        and "n \<notin> set (favorite_names old)"
        by auto
      then show "count_list (favorite_names (stored_favorites ls')) n = 1"
        by (simp add: stored_favorites_eq [OF new])
    qed
    with uniq show ?thesis by blast
  qed
  have unchanged: "ls' = ls" if "\<not> b"
    using r that by (auto dest: add_rejected)
  have uniq: "names_unique ls'"
    using accepted unchanged inv by (cases b) auto
  have working: "b = (n \<notin> set (favorite_names favs)) \<and>
      addFavoriteCity later ls' other = Inr (False, ls') \<and>
      count_list (favorite_names (stored_favorites ls')) n = 1"
    if favs: "getFavoriteCities ls = Inr (JArr favs)"
      and wf: "list_all has_name favs"
      and nb: "\<not> has_bigint (JArr favs)"
      and nbc: "\<not> has_bigint (JObj cityData)"
      and c: "name_lower (JObj cityData) = Inr n"
      and o: "name_lower (JObj other) = Inr n"
      and open_store: "\<not> blocked ls"
      and room: "fits ls (AList.update FAVORITE_CITIES
                   (Json (JArr (favs @ [?new]))) (items ls))"
  proof (cases "n \<in> set (favorite_names favs)")
    case True
    then obtain f where f: "f \<in> set favs" and fn: "name_lower f = Inr n"
      by (auto simp: favorite_names_mem)
    from add_duplicate [OF favs f fn c, of now] r have b: "\<not> b" and same: "ls' = ls"
      by simp_all
    have "addFavoriteCity later ls other = Inr (False, ls)"
      by (rule add_duplicate [OF favs f fn o])
    moreover from inv favs have "distinct (favorite_names favs)"
      by (simp add: names_unique_def stored_favorites_eq)
    then have "count_list (favorite_names (stored_favorites ls)) n = 1"
      using True by (simp add: stored_favorites_eq [OF favs] count_list_distinct)
    ultimately show ?thesis
      using True b same by simp
  next
    case False
    from add_succeeds [OF favs wf nb nbc c False open_store room] r have b
      by auto
    with accepted c o False show ?thesis
      by simp
  qed
  have i1: "b \<and> name_lower (JObj cityData) = Inr n \<and> name_lower (JObj other) = Inr n \<longrightarrow>
      addFavoriteCity later ls' other = Inr (False, ls') \<and>
      count_list (favorite_names (stored_favorites ls')) n = 1"
    using accepted by blast
  have i2: "getFavoriteCities ls = Inr (JArr favs) \<and> list_all has_name favs \<and>
      \<not> has_bigint (JArr favs) \<and> \<not> has_bigint (JObj cityData) \<and>
      name_lower (JObj cityData) = Inr n \<and> name_lower (JObj other) = Inr n \<and>
      \<not> blocked ls \<and>
      fits ls (AList.update FAVORITE_CITIES
        (Json (JArr (favs @ [JObj (AList.update ''addedAt'' (JNum now) cityData)])))
        (items ls)) \<longrightarrow>
      b = (n \<notin> set (favorite_names favs)) \<and>
      addFavoriteCity later ls' other = Inr (False, ls') \<and>
      count_list (favorite_names (stored_favorites ls')) n = 1"
    using working by blast
  show ?thesis
    by (rule exI [of _ b], rule exI [of _ ls'], intro conjI) (fact r, fact uniq, fact i1, fact i2)
qed

theorem addFavoriteCity_names_unique_witness:
  "names_unique (store_with_favorites [favorite ''Lyon'' 500]) \<and>
   addFavoriteCity 1000 (store_with_favorites [favorite ''Lyon'' 500]) (city ''Paris'') =
     Inr (True, store_with_favorites [favorite ''Lyon'' 500, favorite ''Paris'' 1000]) \<and>
   names_unique (store_with_favorites [favorite ''Lyon'' 500, favorite ''Paris'' 1000]) \<and>
   addFavoriteCity 2000 (store_with_favorites [favorite ''Lyon'' 500, favorite ''Paris'' 1000])
       (city ''paris'') =
     Inr (False, store_with_favorites [favorite ''Lyon'' 500, favorite ''Paris'' 1000]) \<and>
   count_list
     (favorite_names
       (stored_favorites (store_with_favorites [favorite ''Lyon'' 500, favorite ''Paris'' 1000])))
     ''paris'' = 1"
proof -
  let ?ls = "store_with_favorites [favorite ''Lyon'' 500]"
  let ?favs = "[favorite ''Lyon'' 500]"
  let ?ls' = "store_with_favorites [favorite ''Lyon'' 500, favorite ''Paris'' 1000]"
  have inv: "names_unique ?ls"
    by code_simp
  have g: "getFavoriteCities ?ls = Inr (JArr ?favs)"
    by code_simp
  have lyon: "name_lower (favorite ''Lyon'' 500) = Inr ''lyon''"
    by code_simp
  have wf: "list_all has_name ?favs"
    by (simp add: has_name_def lyon)
  have nb: "\<not> has_bigint (JArr ?favs)"
    by code_simp
  have nbc: "\<not> has_bigint (JObj (city ''Paris''))"
    by code_simp
  have n1: "name_lower (JObj (city ''Paris'')) = Inr ''paris''"
    by code_simp
  have n2: "name_lower (JObj (city ''paris'')) = Inr ''paris''"
    by code_simp
  have op: "\<not> blocked ?ls"
    by (simp add: store_with_favorites_def)
  have room: "fits ?ls (AList.update FAVORITE_CITIES
      (Json (JArr (?favs @ [JObj (AList.update ''addedAt'' (JNum 1000) (city ''Paris''))])))
      (items ?ls))"
    by (simp add: store_with_favorites_def unlimited_def)
  have some: "array_some (same_name (name_lower (JObj (city ''Paris'')))) ?favs = Inr False"
    by code_simp
  have nbn: "\<not> has_bigint (JObj (AList.update ''addedAt'' (JNum 1000) (city ''Paris'')))"
    by code_simp
  have lyon_nb: "\<not> has_bigint (favorite ''Lyon'' 500)"
    by code_simp
  have first: "addFavoriteCity 1000 ?ls (city ''Paris'') = Inr (True, ?ls')"
    unfolding addFavoriteCity_def g sum.case jsval.case some
    by (simp add: nbn lyon_nb try_catch_def saveToStorage_eq store_with_favorites_def
        unlimited_def favorite_def city_def)
  from addFavoriteCity_names_unique
         [OF inv, of 1000 "city ''Paris''" "''paris''" "city ''paris''" 2000 ?favs]
  obtain b ls'
    where r: "addFavoriteCity 1000 ?ls (city ''Paris'') = Inr (b, ls')"
      and u: "names_unique ls'"
      and w: "getFavoriteCities ?ls = Inr (JArr ?favs) \<and> list_all has_name ?favs \<and>
            \<not> has_bigint (JArr ?favs) \<and> \<not> has_bigint (JObj (city ''Paris'')) \<and>
            name_lower (JObj (city ''Paris'')) = Inr ''paris'' \<and>
            name_lower (JObj (city ''paris'')) = Inr ''paris'' \<and>
            \<not> blocked ?ls \<and>
            fits ?ls (AList.update FAVORITE_CITIES
              (Json (JArr (?favs @ [JObj (AList.update ''addedAt'' (JNum 1000) (city ''Paris''))])))
              (items ?ls)) \<longrightarrow>
              b = (''paris'' \<notin> set (favorite_names ?favs)) \<and>
              addFavoriteCity 2000 ls' (city ''paris'') = Inr (False, ls') \<and>
              count_list (favorite_names (stored_favorites ls')) ''paris'' = 1"
    by blast
  from r first have eq: "ls' = ?ls'"
    by simp
  from w g wf nb nbc n1 n2 op room
  have "addFavoriteCity 2000 ls' (city ''paris'') = Inr (False, ls') \<and>
        count_list (favorite_names (stored_favorites ls')) ''paris'' = 1"
    by blast
  with inv first u show ?thesis
    unfolding eq by simp
qed

text \<open>
  C9. When the name of \<open>cityData\<close> matches, case-insensitively, the name of a stored
  favorite, \<open>addFavoriteCity\<close> returns false and local storage is exactly as before: no
  write occurs.
\<close>

theorem addFavoriteCity_rejects_duplicate:
  assumes "getFavoriteCities ls = Inr (JArr favs)"
    and "f \<in> set favs"
    and "name_lower f = Inr n"
    and "name_lower (JObj cityData) = Inr n"
  shows "addFavoriteCity now ls cityData = Inr (False, ls)"
  using assms by (rule add_duplicate)


theorem addFavoriteCity_rejects_duplicate_witness:
  "getFavoriteCities (store_with_favorites [favorite ''Paris'' 1000]) =
     Inr (JArr [favorite ''Paris'' 1000]) \<and>
   favorite ''Paris'' 1000 \<in> set [favorite ''Paris'' 1000] \<and>
   name_lower (favorite ''Paris'' 1000) = Inr ''paris'' \<and>
   name_lower (JObj (city ''PARIS'')) = Inr ''paris'' \<and>
   addFavoriteCity 2000 (store_with_favorites [favorite ''Paris'' 1000]) (city ''PARIS'') =
     Inr (False, store_with_favorites [favorite ''Paris'' 1000])"
proof -
  have g: "getFavoriteCities (store_with_favorites [favorite ''Paris'' 1000]) =
      Inr (JArr [favorite ''Paris'' 1000])"
    by code_simp
  have m: "favorite ''Paris'' 1000 \<in> set [favorite ''Paris'' 1000]"
    by simp
  have n1: "name_lower (favorite ''Paris'' 1000) = Inr ''paris''"
    by code_simp
  have n2: "name_lower (JObj (city ''PARIS'')) = Inr ''paris''"
    by code_simp
  from g m n1 n2 addFavoriteCity_rejects_duplicate [OF g m n1 n2, of 2000]
  show ?thesis by (intro conjI)
qed


lemma other_name_Inr:
  "\<not> isl (other_name (Inr t) f) \<Longrightarrow>
     (other_name (Inr t) f = Inr True) = (name_lower f \<noteq> Inr t)"
  by (auto simp: other_name_def split: sum.splits)

lemma other_name_has_name: "has_name f \<Longrightarrow> \<not> isl (other_name (Inr t) f)"
  by (auto simp: other_name_def has_name_def split: sum.splits)

lemma remove_accepted:
  assumes "removeFavoriteCity ls cityName = Inr (True, ls')"
  shows "\<exists>favs. getFavoriteCities ls = Inr (JArr favs) \<and>
           getFavoriteCities ls' =
             Inr (JArr (filter (\<lambda>f. name_lower f \<noteq> Inr (toLowerCase cityName)) favs))"
proof -
  let ?t = "toLowerCase cityName"
  obtain v where v: "getFavoriteCities ls = Inr v"
    using getFavoriteCities_total by blast
  with assms obtain favs where favs: "v = JArr favs"
    by (cases v) (auto simp: removeFavoriteCity_def try_catch_def)
  from assms v favs obtain r where r: "array_filter (other_name (Inr ?t)) favs = Inr r"
    and save: "saveToStorage ls FAVORITE_CITIES (JArr r) = Inr (True, ls')"
    by (auto simp: removeFavoriteCity_def try_catch_def split: sum.splits)
  from array_filter_Inr [OF r]
  have "r = filter (\<lambda>f. name_lower f \<noteq> Inr ?t) favs"
    by (auto intro: filter_cong simp: other_name_Inr)
  with getFavoriteCities_after_save [OF save] v favs show ?thesis
    by simp
qed

lemma remove_rejected:
  assumes "removeFavoriteCity ls cityName = Inr (False, ls')"
  shows "ls' = ls"
proof -
  obtain v where v: "getFavoriteCities ls = Inr v"
    using getFavoriteCities_total by blast
  show ?thesis
    using assms v
    by (cases v)
       (auto simp: removeFavoriteCity_def try_catch_def
             split: sum.splits dest: save_failed_unchanged)
qed

lemma remove_total: "\<exists>b ls'. removeFavoriteCity ls cityName = Inr (b, ls')"
proof -
  obtain v where v: "getFavoriteCities ls = Inr v"
    using getFavoriteCities_total by blast
  show ?thesis
    using v
    by (cases v)
       (auto simp: removeFavoriteCity_def try_catch_def saveToStorage_eq split: sum.splits)
qed

lemma remove_succeeds:
  assumes favs: "getFavoriteCities ls = Inr (JArr favs)"
    and wf: "list_all has_name favs"
    and nb: "\<not> has_bigint (JArr favs)"
    and open_store: "\<not> blocked ls"
    and room: "fits ls (AList.update FAVORITE_CITIES
                 (Json (JArr (filter (\<lambda>f. name_lower f \<noteq> Inr (toLowerCase cityName)) favs)))
                 (items ls))"
  shows "\<exists>ls'. removeFavoriteCity ls cityName = Inr (True, ls')"
proof -
  let ?t = "toLowerCase cityName"
  let ?kept = "filter (\<lambda>f. name_lower f \<noteq> Inr ?t) favs"
  from wf have ok: "\<forall>f\<in>set favs. \<not> isl (other_name (Inr ?t) f)"
    by (simp add: list_all_iff other_name_has_name)
  with array_filter_total obtain r where r: "array_filter (other_name (Inr ?t)) favs = Inr r"
    by blast
  from array_filter_Inr [OF r] have kept: "r = ?kept"
    by (auto intro: filter_cong simp: other_name_Inr)
  from nb have "\<not> has_bigint (JArr ?kept)"
    by (auto simp: list_ex_iff)
  with favs r kept open_store room show ?thesis
    by (simp add: removeFavoriteCity_def try_catch_def saveToStorage_eq)
qed

text \<open>
  C6. \<open>removeFavoriteCity(cityName)\<close> returns without throwing. When it reports success,
  the stored list is the former list without the favorites whose lower-cased name equals the
  lower-cased \<open>cityName\<close>, so none with that name is left (\<open>Paris\<close> removes \<open>PARIS\<close>);
  when it reports failure, storage is unchanged. It succeeds whenever storage is
  accessible, the stored favorites all have names and the write fits.
\<close>

theorem removeFavoriteCity_removes_matches:
  "\<exists>b ls'. removeFavoriteCity ls cityName = Inr (b, ls') \<and>
     (b \<longrightarrow> stored_favorites ls' =
              filter (\<lambda>f. name_lower f \<noteq> Inr (toLowerCase cityName)) (stored_favorites ls) \<and>
            toLowerCase cityName \<notin> set (favorite_names (stored_favorites ls'))) \<and>
     (\<not> b \<longrightarrow> ls' = ls) \<and>
     (getFavoriteCities ls = Inr (JArr favs) \<and> list_all has_name favs \<and>
      \<not> has_bigint (JArr favs) \<and> \<not> blocked ls \<and>
      fits ls (AList.update FAVORITE_CITIES
        (Json (JArr (filter (\<lambda>f. name_lower f \<noteq> Inr (toLowerCase cityName)) favs)))
        (items ls)) \<longrightarrow> b)"
proof -
  from remove_total obtain b ls' where r: "removeFavoriteCity ls cityName = Inr (b, ls')"
    by blast
  have "stored_favorites ls' =
          filter (\<lambda>f. name_lower f \<noteq> Inr (toLowerCase cityName)) (stored_favorites ls) \<and>
        toLowerCase cityName \<notin> set (favorite_names (stored_favorites ls'))" if b
  proof -
    from r that have "removeFavoriteCity ls cityName = Inr (True, ls')" by simp
    from remove_accepted [OF this] show ?thesis
      by (auto simp: stored_favorites_eq favorite_names_mem)
  qed
  moreover have "ls' = ls" if "\<not> b"
    using r that by (auto dest: remove_rejected)
  moreover have b
    if "getFavoriteCities ls = Inr (JArr favs) \<and> list_all has_name favs \<and>
      \<not> has_bigint (JArr favs) \<and> \<not> blocked ls \<and>
      fits ls (AList.update FAVORITE_CITIES
        (Json (JArr (filter (\<lambda>f. name_lower f \<noteq> Inr (toLowerCase cityName)) favs)))
        (items ls))"
    using remove_succeeds [of ls favs cityName] that r by auto
  ultimately show ?thesis using r by blast
qed

theorem removeFavoriteCity_removes_matches_witness:
  "removeFavoriteCity (store_with_favorites [favorite ''PARIS'' 1000, favorite ''Lyon'' 2000]) ''Paris'' =
     Inr (True, store_with_favorites [favorite ''Lyon'' 2000]) \<and>
   stored_favorites (store_with_favorites [favorite ''Lyon'' 2000]) =
     filter (\<lambda>f. name_lower f \<noteq> Inr (toLowerCase ''Paris''))
       (stored_favorites (store_with_favorites [favorite ''PARIS'' 1000, favorite ''Lyon'' 2000])) \<and>
   toLowerCase ''Paris'' \<notin>
     set (favorite_names (stored_favorites (store_with_favorites [favorite ''Lyon'' 2000])))"
proof -
  let ?ls = "store_with_favorites [favorite ''PARIS'' 1000, favorite ''Lyon'' 2000]"
  let ?favs = "[favorite ''PARIS'' 1000, favorite ''Lyon'' 2000]"
  have n1: "name_lower (favorite ''PARIS'' 1000) = Inr ''paris''"
    by code_simp
  have n2: "name_lower (favorite ''Lyon'' 2000) = Inr ''lyon''"
    by code_simp
  have t: "toLowerCase ''Paris'' = ''paris''"
    by code_simp
  have g: "getFavoriteCities ?ls = Inr (JArr ?favs)"
    by code_simp
  have kept: "filter (\<lambda>f. name_lower f \<noteq> Inr (toLowerCase ''Paris'')) ?favs = [favorite ''Lyon'' 2000]"
    by (simp add: n1 n2 t)
  have wf: "list_all has_name ?favs"
    by (simp add: has_name_def n1 n2)
  have nb: "\<not> has_bigint (JArr ?favs)"
    by code_simp
  have op: "\<not> blocked ?ls"
    by (simp add: store_with_favorites_def)
  have room: "fits ?ls (AList.update FAVORITE_CITIES
        (Json (JArr (filter (\<lambda>f. name_lower f \<noteq> Inr (toLowerCase ''Paris'')) ?favs)))
        (items ?ls))"
    by (simp add: store_with_favorites_def unlimited_def)
  have f: "array_filter (other_name (Inr (toLowerCase ''Paris''))) ?favs =
      Inr [favorite ''Lyon'' 2000]"
    by code_simp
  have nb2: "\<not> has_bigint (favorite ''Lyon'' 2000)"
    by code_simp
  have run: "removeFavoriteCity ?ls ''Paris'' = Inr (True, store_with_favorites [favorite ''Lyon'' 2000])"
    unfolding removeFavoriteCity_def g sum.case jsval.case f
    by (simp add: nb2 try_catch_def saveToStorage_eq store_with_favorites_def unlimited_def)
  from removeFavoriteCity_removes_matches [of ?ls "''Paris''" ?favs] g wf nb op room run
  show ?thesis by auto
qed

text \<open>
  The comparison is by lower-cased name also outside the ASCII letters: removing the name
  \<open>U+00E9\<close> removes a favorite stored under \<open>U+00C9\<close>.
\<close>

lemma toLowerCase_latin1:
  "toLowerCase [CHR 0xC9, CHR 0xD7, CHR ''Z'', CHR 0xDF, CHR 0xDE] =
     [CHR 0xE9, CHR 0xD7, CHR ''z'', CHR 0xDF, CHR 0xFE]"
  by code_simp

lemma removeFavoriteCity_latin1:
  "removeFavoriteCity (store_with_favorites [favorite [CHR 0xC9] 1000]) [CHR 0xE9] =
     Inr (True, store_with_favorites [])"
proof -
  have g: "getFavoriteCities (store_with_favorites [favorite [CHR 0xC9] 1000]) =
      Inr (JArr [favorite [CHR 0xC9] 1000])"
    by code_simp
  have f: "array_filter (other_name (Inr (toLowerCase [CHR 0xE9]))) [favorite [CHR 0xC9] 1000] =
      Inr []"
    by code_simp
  show ?thesis
    unfolding removeFavoriteCity_def g sum.case jsval.case f
    by (simp add: try_catch_def saveToStorage_eq store_with_favorites_def unlimited_def)
qed

text \<open>
  C8. For every key and value, \<open>saveToStorage\<close> and \<open>getFromStorage\<close> return without
  throwing. When \<open>JSON.stringify\<close> or \<open>setItem\<close> throws, \<open>saveToStorage\<close> returns false
  (and storage is unchanged); when \<open>getItem\<close> or \<open>JSON.parse\<close> throws, \<open>getFromStorage\<close>
  returns null.
\<close>

theorem storage_failures_swallowed:
  "(\<exists>b ls'. saveToStorage ls key v = Inr (b, ls')) \<and>
   (\<exists>r. getFromStorage ls key = Inr r) \<and>
   (JSON_stringify v = Inl e \<longrightarrow> saveToStorage ls key v = Inr (False, ls)) \<and>
   (JSON_stringify v = Inr s \<and> setItem ls key s = Inl e \<longrightarrow>
      saveToStorage ls key v = Inr (False, ls)) \<and>
   (getItem ls key = Inl e \<longrightarrow> getFromStorage ls key = Inr JNull) \<and>
   (getItem ls key = Inr (Some t) \<and> JSON_parse t = Inl e \<longrightarrow>
      getFromStorage ls key = Inr JNull)"
proof (intro conjI impI)
  show "\<exists>b ls'. saveToStorage ls key v = Inr (b, ls')"
    by (simp add: saveToStorage_eq)
  show "\<exists>r. getFromStorage ls key = Inr r"
    by (simp add: getFromStorage_eq)
  show "saveToStorage ls key v = Inr (False, ls)" if "JSON_stringify v = Inl e"
    using that by (simp add: saveToStorage_def try_catch_def)
  show "saveToStorage ls key v = Inr (False, ls)"
    if "JSON_stringify v = Inr s \<and> setItem ls key s = Inl e"
    using that by (simp add: saveToStorage_def try_catch_def)
  show "getFromStorage ls key = Inr JNull" if "getItem ls key = Inl e"
    using that by (simp add: getFromStorage_def try_catch_def)
  show "getFromStorage ls key = Inr JNull"
    if "getItem ls key = Inr (Some t) \<and> JSON_parse t = Inl e"
    using that by (cases t) (simp_all add: getFromStorage_def try_catch_def)
qed

theorem storage_failures_swallowed_witness:
  "JSON_stringify (JArr [JBigInt 1]) = Inl TypeError \<and>
   saveToStorage empty_storage LAST_UPDATE (JArr [JBigInt 1]) = Inr (False, empty_storage) \<and>
   JSON_stringify (JNum 5) = Inr (Json (JNum 5)) \<and>
   setItem full_storage LAST_UPDATE (Json (JNum 5)) = Inl QuotaExceededError \<and>
   saveToStorage full_storage LAST_UPDATE (JNum 5) = Inr (False, full_storage) \<and>
   getItem blocked_storage LAST_UPDATE = Inl SecurityError \<and>
   getFromStorage blocked_storage LAST_UPDATE = Inr JNull \<and>
   getItem corrupt_storage LAST_UPDATE = Inr (Some Malformed) \<and>
   JSON_parse Malformed = Inl SyntaxError \<and>
   getFromStorage corrupt_storage LAST_UPDATE = Inr JNull"
proof -
  have a: "JSON_stringify (JArr [JBigInt 1]) = Inl TypeError"
    by (simp add: JSON_stringify_def)
  have b: "JSON_stringify (JNum 5) = Inr (Json (JNum 5))"
    by (simp add: JSON_stringify_def)
  have c: "setItem full_storage LAST_UPDATE (Json (JNum 5)) = Inl QuotaExceededError"
    by (simp add: setItem_def full_storage_def no_room_def)
  have d: "getItem blocked_storage LAST_UPDATE = Inl SecurityError"
    by (simp add: getItem_def blocked_storage_def)
  have f: "getItem corrupt_storage LAST_UPDATE = Inr (Some Malformed)"
    by (simp add: getItem_def corrupt_storage_def)
  have g: "JSON_parse Malformed = Inl SyntaxError"
    by (simp add: JSON_parse_def)
  from storage_failures_swallowed
         [of empty_storage LAST_UPDATE "JArr [JBigInt 1]" TypeError]
       storage_failures_swallowed
         [of full_storage LAST_UPDATE "JNum 5" QuotaExceededError "Json (JNum 5)"]
       storage_failures_swallowed
         [of blocked_storage LAST_UPDATE _ SecurityError]
       storage_failures_swallowed
         [of corrupt_storage LAST_UPDATE _ SyntaxError _ Malformed]
       a b c d f g
  show ?thesis by simp
qed

lemma getLastUpdate_after_save:
  "saveLastUpdate prev t = Inr (True, ls) \<Longrightarrow> getLastUpdate ls = Inr (JNum t)"
  unfolding saveLastUpdate_def getLastUpdate_def by (rule getFromStorage_after_save)

subsection \<open>Doubles are exact on the safe integers\<close>

lemma ilog2_nonneg: "0 \<le> ilog2 n"
  by (induction n rule: ilog2.induct) (simp add: ilog2.simps)

lemma ilog2_bounds:
  "0 < n \<Longrightarrow> 2 ^ nat (ilog2 n) \<le> n \<and> n < 2 ^ nat (ilog2 n + 1)"
proof (induction n rule: ilog2.induct)
  case (1 n)
  show ?case
  proof (cases "n < 2")
    case True
    with "1.prems" have "n = 1" by simp
    then show ?thesis by (simp add: ilog2.simps)
  next
    case False
    then have "0 < n div 2" by simp
    with "1.IH" False
    have "2 ^ nat (ilog2 (n div 2)) \<le> n div 2"
      and "n div 2 < 2 ^ nat (ilog2 (n div 2) + 1)"
      by auto
    moreover have "nat (1 + ilog2 (n div 2)) = Suc (nat (ilog2 (n div 2)))"
      using ilog2_nonneg [of "n div 2"] by simp
    moreover have "nat (1 + ilog2 (n div 2) + 1) = Suc (Suc (nat (ilog2 (n div 2))))"
      using ilog2_nonneg [of "n div 2"] by simp
    moreover have "nat (ilog2 (n div 2) + 1) = Suc (nat (ilog2 (n div 2)))"
      using ilog2_nonneg [of "n div 2"] by simp
    ultimately show ?thesis
      using False by (simp add: ilog2.simps [of n]) linarith
  qed
qed

lemma round_half_even_int: "round_half_even (of_int z) = z"
  by (simp add: round_half_even_def)

lemma scaled_safe_integer:
  assumes pos: "0 < a" and safe: "a \<le> 2 ^ 53"
  shows "of_int (round_half_even (of_int a / pow2 (ilog2 a - 52))) * pow2 (ilog2 a - 52) =
           (of_int a :: rat)"
proof -
  define e where "e = ilog2 a"
  have e0: "0 \<le> e"
    by (simp add: e_def ilog2_nonneg)
  from ilog2_bounds [OF pos] have lo: "2 ^ nat e \<le> a"
    by (simp add: e_def)
  have e53: "e \<le> 53"
  proof (rule ccontr)
    assume "\<not> e \<le> 53"
    then have "54 \<le> nat e" by simp
    then have "(2::int) ^ 54 \<le> 2 ^ nat e"
      by (intro power_increasing) auto
    with lo safe show False by simp
  qed
  show ?thesis
  proof (cases "e \<le> 52")
    case True
    define k where "k = nat (52 - e)"
    have p: "pow2 (e - 52) = 1 / 2 ^ k"
      using True by (cases "e = 52") (simp_all add: pow2_def k_def)
    have "of_int a / pow2 (e - 52) = (of_int (a * 2 ^ k) :: rat)"
      by (simp add: p)
    then have "round_half_even (of_int a / pow2 (e - 52)) = a * 2 ^ k"
      by (simp only: round_half_even_int)
    then show ?thesis
      unfolding e_def [symmetric] by (simp add: p)
  next
    case False
    with e53 have e: "e = 53" by simp
    with lo safe have a: "a = 2 ^ 53" by simp
    have p: "pow2 (e - 52) = 2"
      by (simp add: e pow2_def)
    have "of_int a / pow2 (e - 52) = (of_int (2 ^ 52) :: rat)"
      by (simp add: p a)
    then have "round_half_even (of_int a / pow2 (e - 52)) = 2 ^ 52"
      by (simp only: round_half_even_int)
    then show ?thesis
      unfolding e_def [symmetric] by (simp add: p a)
  qed
qed

lemma overflow_threshold_eq: "overflow_threshold = 2 ^ 1024"
  unfolding overflow_threshold_def by (simp only: power_mult [symmetric]) simp

lemma round_double_int:
  assumes "\<bar>k\<bar> \<le> 2 ^ 53"
  shows "round_double (of_int k) = Finite (of_int k)"
proof (cases "k = 0")
  case True
  then show ?thesis by (simp add: round_double_def)
next
  case False
  define a where "a = \<bar>k\<bar>"
  have pos: "0 < a" and safe: "a \<le> 2 ^ 53"
    using False assms by (auto simp: a_def)
  have ax: "\<bar>of_int k :: rat\<bar> = of_int a"
    by (simp add: a_def)
  have fl: "floor_log2 (of_int a) = ilog2 a"
    using pos by (simp add: floor_log2_def)
  have p: "max (ilog2 a - 52) (- 1074) = ilog2 a - 52"
    using ilog2_nonneg [of a] by simp
  note m = scaled_safe_integer [OF pos safe]
  have "(of_int a :: rat) \<le> of_int (2 ^ 53)"
    using safe by (simp only: of_int_le_iff)
  then have small: "\<not> (overflow_threshold \<le> (of_int a :: rat))"
    unfolding overflow_threshold_eq by simp
  have sign: "(if 0 < (of_int k :: rat) then of_int a else - of_int a) = (of_int k :: rat)"
    by (simp add: a_def)
  from False have nz: "(of_int k :: rat) \<noteq> 0"
    by simp
  show ?thesis
    unfolding round_double_def ax fl p Let_def m
    using nz small sign by simp
qed

lemma needsRefresh_number:
  assumes g: "getLastUpdate ls = Inr (JNum t)"
    and t: "\<bar>t\<bar> \<le> 2 ^ 53"
    and n: "\<bar>now\<bar> \<le> 2 ^ 53"
    and d: "\<bar>now - t\<bar> \<le> 2 ^ 53"
    and m: "\<bar>m * 60000\<bar> \<le> 2 ^ 53"
  shows "needsRefresh coerce now ls (Finite (of_int m)) =
           Inr (t = 0 \<or> now - t > m * 60 * 1000)"
proof -
  have m60: "\<bar>m * 60\<bar> \<le> 2 ^ 53"
    using m by (simp add: abs_mult)
  have m60000: "\<bar>m * 60 * 1000\<bar> \<le> 2 ^ 53"
    using m by (simp add: abs_mult)
  have sub: "num_sub (Finite (of_int now)) (Finite (of_int t)) = Finite (of_int (now - t))"
    using round_double_int [OF d] by simp
  have mul1: "num_mul (Finite (of_int m)) (Finite 60) = Finite (of_int (m * 60))"
    using round_double_int [OF m60] by simp
  have mul2: "num_mul (Finite (of_int (m * 60))) (Finite 1000) = Finite (of_int (m * 60 * 1000))"
    using round_double_int [OF m60000] by simp
  have cmp: "num_gt (Finite (of_int (now - t))) (Finite (of_int (m * 60 * 1000))) =
      (now - t > m * 60 * 1000)"
    by (simp only: num_gt.simps of_int_less_iff)
  show ?thesis
    unfolding needsRefresh_def g ToNumber_def sum.case jsval.case Let_def
      round_double_int [OF t] round_double_int [OF n] sub mul1 mul2 cmp
    by simp
qed

lemma needsRefresh_absent:
  "map_of (items ls) LAST_UPDATE = None \<Longrightarrow> needsRefresh coerce now ls minutes = Inr True"
  by (simp add: needsRefresh_def getLastUpdate_def getFromStorage_eq)

text \<open>
  C4 (amended). \<open>needsRefresh(m)\<close> returns true when no last-update timestamp is stored.
  After \<open>saveLastUpdate(t)\<close> has succeeded, for an integer number of minutes \<open>m\<close> and with
  the timestamp, the current time, the elapsed time \<open>now - t\<close> and the threshold
  \<open>m * 60000\<close> within the safe integers (of absolute value at most \<open>2^53\<close>), it returns
  true exactly when \<open>t\<close> is 0 or the elapsed time strictly exceeds \<open>m\<close> minutes: for a saved
  timestamp other than 0, an elapsed time of exactly \<open>m\<close> minutes gives false and one
  millisecond more gives true.
\<close>

theorem needsRefresh_threshold:
  "(map_of (items ls) LAST_UPDATE = None \<longrightarrow> needsRefresh coerce now ls minutes = Inr True) \<and>
   (saveLastUpdate prev t = Inr (True, ls) \<and> \<bar>t\<bar> \<le> 2 ^ 53 \<and> \<bar>now\<bar> \<le> 2 ^ 53 \<and>
    \<bar>now - t\<bar> \<le> 2 ^ 53 \<and> \<bar>m * 60000\<bar> \<le> 2 ^ 53 \<longrightarrow>
      needsRefresh coerce now ls (Finite (of_int m)) =
        Inr (t = 0 \<or> now - t > m * 60 * 1000))"
  using needsRefresh_absent needsRefresh_number [OF getLastUpdate_after_save] by blast

theorem needsRefresh_threshold_witness:
  "map_of (items empty_storage) LAST_UPDATE = None \<and>
   needsRefresh not_a_number 1762169400000 empty_storage (Finite 10) = Inr True \<and>
   saveLastUpdate empty_storage 1762169400000 = Inr (True, store_with_update 1762169400000) \<and>
   needsRefresh not_a_number 1762170000000 (store_with_update 1762169400000) (Finite 10) =
     Inr False \<and>
   needsRefresh not_a_number 1762170000001 (store_with_update 1762169400000) (Finite 10) =
     Inr True"
proof -
  have a: "map_of (items empty_storage) LAST_UPDATE = None"
    by (simp add: empty_storage_def)
  have s: "saveLastUpdate empty_storage 1762169400000 =
      Inr (True, store_with_update 1762169400000)"
    by (simp add: saveLastUpdate_def saveToStorage_eq empty_storage_def unlimited_def
        store_with_update_def)
  have b1: "\<bar>1762169400000 :: int\<bar> \<le> 2 ^ 53" "\<bar>1762170000000 :: int\<bar> \<le> 2 ^ 53"
    "\<bar>1762170000001 :: int\<bar> \<le> 2 ^ 53"
    "\<bar>1762170000000 - 1762169400000 :: int\<bar> \<le> 2 ^ 53"
    "\<bar>1762170000001 - 1762169400000 :: int\<bar> \<le> 2 ^ 53"
    "\<bar>10 * 60000 :: int\<bar> \<le> 2 ^ 53"
    by simp_all
  from needsRefresh_threshold
         [where ls = empty_storage and coerce = not_a_number and now = 1762169400000
            and minutes = "Finite 10"]
       a
  have c1: "needsRefresh not_a_number 1762169400000 empty_storage (Finite 10) = Inr True"
    by blast
  from needsRefresh_threshold
         [where ls = "store_with_update 1762169400000" and coerce = not_a_number
            and now = 1762170000000 and m = 10 and prev = empty_storage
            and t = 1762169400000]
       s b1
  have c2: "needsRefresh not_a_number 1762170000000 (store_with_update 1762169400000)
      (Finite 10) = Inr False"
    by simp
  from needsRefresh_threshold
         [where ls = "store_with_update 1762169400000" and coerce = not_a_number
            and now = 1762170000001 and m = 10 and prev = empty_storage
            and t = 1762169400000]
       s b1
  have c3: "needsRefresh not_a_number 1762170000001 (store_with_update 1762169400000)
      (Finite 10) = Inr True"
    by simp
  from a s c1 c2 c3 show ?thesis
    by (intro conjI)
qed

text \<open>
  The claim as stated, true exactly when the elapsed time exceeds the threshold whenever a
  timestamp is saved, fails for the saved timestamp 0: with a threshold of 30000000
  minutes the elapsed time does not exceed the threshold, yet the result is true.
\<close>

theorem needsRefresh_epoch_counterexample:
  "saveLastUpdate empty_storage 0 = Inr (True, store_with_update 0) \<and>
   \<not> (1762169400000 - 0 > (30000000 :: int) * 60 * 1000) \<and>
   needsRefresh not_a_number 1762169400000 (store_with_update 0) (Finite 30000000) = Inr True"
proof -
  have s: "saveLastUpdate empty_storage 0 = Inr (True, store_with_update 0)"
    by (simp add: saveLastUpdate_def saveToStorage_eq empty_storage_def unlimited_def
        store_with_update_def)
  have "needsRefresh not_a_number 1762169400000 (store_with_update 0) (Finite 30000000) =
      Inr True"
    by code_simp
  with s show ?thesis by simp
qed

text \<open>
  Outside the safe integers, and for a fractional number of minutes, the comparison is
  between rounded values. The elapsed time 9007199254800001 is not a double and is rounded
  to 9007199254800000, which does not exceed an equal threshold; 4.1 minutes give the
  threshold 245999.99999999997, which an elapsed time of 246000 milliseconds exceeds.
\<close>

lemma needsRefresh_rounded_difference:
  "1762169400000 - (- 9005437085400001) > (150119987580 :: int) * 60 * 1000 \<and>
   needsRefresh not_a_number 1762169400000 (store_with_update (- 9005437085400001))
     (Finite 150119987580) = Inr False"
proof -
  have "needsRefresh not_a_number 1762169400000 (store_with_update (- 9005437085400001))
     (Finite 150119987580) = Inr False"
    by code_simp
  then show ?thesis by simp
qed

lemma needsRefresh_fractional_minutes:
  "round_double (41 / 10) = Finite (2308094809027379 / 562949953421312) \<and>
   needsRefresh not_a_number 1762169646000 (store_with_update 1762169400000)
     (Finite (2308094809027379 / 562949953421312)) = Inr True"
  by code_simp

text \<open>
  C10. When the recorded last-update timestamp is 0, \<open>needsRefresh(m)\<close> returns true for
  every threshold \<open>m\<close> and every current time: \<open>!lastUpdate\<close> holds for the number 0.
\<close>

theorem needsRefresh_epoch:
  assumes "getLastUpdate ls = Inr (JNum 0)"
  shows "needsRefresh coerce now ls m = Inr True"
  using assms by (simp add: needsRefresh_def)

theorem needsRefresh_epoch_witness:
  "getLastUpdate (store_with_update 0) = Inr (JNum 0) \<and>
   needsRefresh not_a_number 1762169400000 (store_with_update 0) (Finite 10) = Inr True \<and>
   needsRefresh not_a_number 1 (store_with_update 0) (Finite 30000000) = Inr True"
proof -
  have g: "getLastUpdate (store_with_update 0) = Inr (JNum 0)"
    by code_simp
  from g needsRefresh_epoch [OF g, of not_a_number 1762169400000 "Finite 10"]
       needsRefresh_epoch [OF g, of not_a_number 1 "Finite 30000000"]
  show ?thesis by simp
qed

end
